theory Spec2Isabelle
  imports Complex_Main "HOL-Library.AList"
begin

section \<open>Errors\<close>

text \<open>
  Every exception the modelled code can raise is a value. The four structural checks of
  \<open>ModelStore._validate\<close> each contribute one entry to the list \<open>errors\<close>; the
  text of the raised \<open>ValueError\<close> is the \<open>"; "\<close>-join of these entries after a fixed
  prefix, and is represented here by the list of its parts (the rendering of a Python
  set inside an f-string depends on hash order and is not part of the model).
\<close>

datatype violation =
    MissingKeys "string set"
  | ModelsEmpty
  | KeysMismatch "string set" "string set"
  | EncodersEmpty

datatype value_error =
    UnseenLabel string
  | BadDate string
  | ValidationFailed "violation list"

datatype error =
    KeyError string
  | IndexError
  | ValueError value_error
  | OverflowError
  | OtherError string

section \<open>Label encoders and \<open>_safe_label_encode\<close>\<close>

text \<open>
  A fitted \<open>LabelEncoder\<close> is its vocabulary (the attribute \<open>classes_\<close> of the
  source, the field \<open>classes\<close> here); the code of a label is its position in the
  vocabulary. \<open>transform\<close> raises \<open>ValueError\<close> on a label that is not in the
  vocabulary.
\<close>

record encoder =
  classes :: "string list"

fun lookup_code :: "string list \<Rightarrow> string \<Rightarrow> nat option" where
  "lookup_code [] v = None"
| "lookup_code (c # cs) v = (if c = v then Some 0 else map_option Suc (lookup_code cs v))"

fun transform :: "encoder \<Rightarrow> string list \<Rightarrow> error + int list" where
  "transform enc [] = Inr []"
| "transform enc (y # ys) =
     (case lookup_code (classes enc) y of
        None \<Rightarrow> Inl (ValueError (UnseenLabel y))
      | Some i \<Rightarrow>
          (case transform enc ys of
             Inl e \<Rightarrow> Inl e
           | Inr codes \<Rightarrow> Inr (int i # codes)))"

text \<open>Python's \<open>xs[0]\<close>: \<open>IndexError\<close> on an empty sequence.\<close>

definition first_item :: "'a list \<Rightarrow> error + 'a" where
  "first_item xs = (case xs of [] \<Rightarrow> Inl IndexError | x # _ \<Rightarrow> Inr x)"

definition transform_first :: "encoder \<Rightarrow> string \<Rightarrow> error + int" where
  "transform_first enc v =
     (case transform enc [v] of Inl e \<Rightarrow> Inl e | Inr codes \<Rightarrow> first_item codes)"

text \<open>
  \<open>_safe_label_encode\<close>: the \<open>try\<close> body is \<open>int(encoder.transform([value])[0])\<close>; the
  handler catches \<open>ValueError\<close> and \<open>KeyError\<close> only, every other exception propagates.
\<close>

definition safe_label_encode :: "encoder \<Rightarrow> string \<Rightarrow> error + int" where
  "safe_label_encode enc v =
     (let handler =
            (if ''nan'' \<in> set (classes enc) then transform_first enc ''nan'' else Inr 0)
      in case transform_first enc v of
           Inr code \<Rightarrow> Inr code
         | Inl (ValueError _) \<Rightarrow> handler
         | Inl (KeyError _) \<Rightarrow> handler
         | Inl e \<Rightarrow> Inl e)"

section \<open>Client record and artifact\<close>

text \<open>
  \<open>ClientFeatures\<close>: an \<open>Optional\<close> field is an \<open>option\<close>, the ownership dictionary
  \<open>prev_products\<close> is a map. The feature builder also tests \<open>age\<close> for \<open>None\<close>, so it is
  optional here as well. Python floats are modelled as reals: there is no rounding, no
  infinity and no NaN in this model.
\<close>

record client_features =
  age :: "int option"
  renta :: "real option"
  antiguedad :: "int option"
  sexo :: "string option"
  segmento :: "string option"
  canal_entrada :: "string option"
  pais_residencia :: "string option"
  nomprov :: "string option"
  ind_empleado :: "string option"
  tiprel_1mes :: "string option"
  indresi :: "string option"
  indext :: "string option"
  indfall :: "string option"
  indrel_1mes :: "string option"
  ind_nuevo :: "int option"
  indrel :: "int option"
  ind_actividad_cliente :: "int option"
  cod_prov :: "int option"
  prev_products :: "string \<rightharpoonup> int"
  product_changes :: "int option"
  fecha_dato :: "string option"
  top_k :: int

text \<open>
  The one-row \<open>DataFrame\<close> handed to the classifiers: its columns in order, each with the
  value of the single row. A classifier is its \<open>predict_proba\<close>: one row of class
  probabilities per input row, or an exception of its own.
\<close>

type_synonym dataframe = "(string \<times> real) list"

type_synonym classifier = "dataframe \<Rightarrow> error + real list list"

text \<open>
  The loaded artifact as the accessors of \<open>ModelStore\<close> expose it. A Python dictionary
  is an association list in insertion order, read with \<open>map_of\<close>.
\<close>

record artifact =
  models :: "(string \<times> classifier) list"
  feature_cols :: "string list"
  product_cols :: "string list"
  product_names :: "(string \<times> string) list"
  label_encoders :: "(string \<times> encoder) list"
  top20_canal :: "string list"
  top20_prov :: "string list"

datatype datetime = Datetime (year: int) (month: int) (day: int)

section \<open>Module constants of the predictor\<close>

definition DEFAULT_RENTA_BY_SEGMENT :: "(string \<times> real) list" where
  "DEFAULT_RENTA_BY_SEGMENT =
     [(''01 - TOP'', 234340), (''02 - PARTICULARES'', 101340), (''03 - UNIVERSITARIO'', 86200)]"

definition DEFAULT_RENTA :: real where
  "DEFAULT_RENTA = 101850"

definition DEFAULT_AGE :: int where
  "DEFAULT_AGE = 40"

definition DEFAULT_ANTIGUEDAD :: int where
  "DEFAULT_ANTIGUEDAD = 70"

definition DATASET_START :: datetime where
  "DATASET_START = Datetime 2015 2 1"

section \<open>Parsing the observation date\<close>

text \<open>
  \<open>datetime.strptime(s, "%Y-%m-%d")\<close> of the standard library, on ASCII input: four
  digits, a dash, a month (\<open>1[0-2]\<close>, \<open>0[1-9]\<close> or \<open>[1-9]\<close>, tried in this order), a dash,
  a day (\<open>3[0-1]\<close>, \<open>[1-2]\<close> and a digit, \<open>0[1-9]\<close>, \<open>[1-9]\<close>, or a blank and \<open>[1-9]\<close>),
  and nothing after it; then the calendar check of the \<open>datetime\<close> constructor. Every
  failure is a \<open>ValueError\<close>.
\<close>

definition digit_of :: "char \<Rightarrow> int option" where
  "digit_of c =
     map_of [(CHR ''0'', 0), (CHR ''1'', 1), (CHR ''2'', 2), (CHR ''3'', 3), (CHR ''4'', 4),
             (CHR ''5'', 5), (CHR ''6'', 6), (CHR ''7'', 7), (CHR ''8'', 8), (CHR ''9'', 9)] c"

definition parse_Y :: "string \<Rightarrow> (int \<times> string) option" where
  "parse_Y s =
     (case s of
        a # b # c # d # rest \<Rightarrow>
          (case (digit_of a, digit_of b, digit_of c, digit_of d) of
             (Some x, Some y, Some z, Some w) \<Rightarrow> Some (1000 * x + 100 * y + 10 * z + w, rest)
           | _ \<Rightarrow> None)
      | _ \<Rightarrow> None)"

definition parse_two :: "char \<Rightarrow> char \<Rightarrow> int" where
  "parse_two a b = 10 * (case digit_of a of Some x \<Rightarrow> x | None \<Rightarrow> 0)
                   + (case digit_of b of Some y \<Rightarrow> y | None \<Rightarrow> 0)"

definition parse_m :: "string \<Rightarrow> (int \<times> string) option" where
  "parse_m s =
     (case s of
        [] \<Rightarrow> None
      | a # t \<Rightarrow>
          (case t of
             b # rest \<Rightarrow>
               if a = CHR ''1'' \<and> b \<in> set ''012'' then Some (parse_two a b, rest)
               else if a = CHR ''0'' \<and> b \<in> set ''123456789'' then Some (parse_two a b, rest)
               else if a \<in> set ''123456789'' then Some (parse_two (CHR ''0'') a, t)
               else None
           | [] \<Rightarrow> if a \<in> set ''123456789'' then Some (parse_two (CHR ''0'') a, t) else None))"

definition parse_d :: "string \<Rightarrow> (int \<times> string) option" where
  "parse_d s =
     (case s of
        [] \<Rightarrow> None
      | a # t \<Rightarrow>
          (case t of
             b # rest \<Rightarrow>
               if a = CHR ''3'' \<and> b \<in> set ''01'' then Some (parse_two a b, rest)
               else if a \<in> set ''12'' \<and> b \<in> set ''0123456789'' then Some (parse_two a b, rest)
               else if a = CHR ''0'' \<and> b \<in> set ''123456789'' then Some (parse_two a b, rest)
               else if a \<in> set ''123456789'' then Some (parse_two (CHR ''0'') a, t)
               else if a = CHR '' '' \<and> b \<in> set ''123456789'' then Some (parse_two (CHR ''0'') b, rest)
               else None
           | [] \<Rightarrow> if a \<in> set ''123456789'' then Some (parse_two (CHR ''0'') a, t) else None))"

definition expect_dash :: "string \<Rightarrow> string option" where
  "expect_dash s = (case s of [] \<Rightarrow> None | c # rest \<Rightarrow> if c = CHR ''-'' then Some rest else None)"

definition days_in_month :: "int \<Rightarrow> int \<Rightarrow> int" where
  "days_in_month y m =
     (if m = 2 then (if y mod 4 = 0 \<and> (y mod 100 \<noteq> 0 \<or> y mod 400 = 0) then 29 else 28)
      else if m \<in> {4, 6, 9, 11} then 30 else 31)"

definition strptime_ymd :: "string \<Rightarrow> error + datetime" where
  "strptime_ymd s =
     (case parse_Y s of
        None \<Rightarrow> Inl (ValueError (BadDate s))
      | Some (y, s1) \<Rightarrow>
     (case expect_dash s1 of
        None \<Rightarrow> Inl (ValueError (BadDate s))
      | Some s2 \<Rightarrow>
     (case parse_m s2 of
        None \<Rightarrow> Inl (ValueError (BadDate s))
      | Some (m, s3) \<Rightarrow>
     (case expect_dash s3 of
        None \<Rightarrow> Inl (ValueError (BadDate s))
      | Some s4 \<Rightarrow>
     (case parse_d s4 of
        None \<Rightarrow> Inl (ValueError (BadDate s))
      | Some (d, s5) \<Rightarrow>
          if s5 \<noteq> [] then Inl (ValueError (BadDate s))
          else if y < 1 \<or> days_in_month y m < d then Inl (ValueError (BadDate s))
          else Inr (Datetime y m d))))))"

section \<open>\<open>BankPredictor._preprocess\<close>\<close>

text \<open>The dictionary \<open>features\<close>, and \<open>d.get(k, default)\<close>.\<close>

type_synonym features = "string \<rightharpoonup> real"

definition dict_get :: "('k \<rightharpoonup> 'v) \<Rightarrow> 'k \<Rightarrow> 'v \<Rightarrow> 'v" where
  "dict_get d k dflt = (case d k of None \<Rightarrow> dflt | Some v \<Rightarrow> v)"

text \<open>Numeric features: age, log_renta, antiguedad, ind_nuevo, indrel, activity, cod_prov.\<close>

definition renta_value :: "client_features \<Rightarrow> real" where
  "renta_value c =
     (let use_default =
            (case renta c of None \<Rightarrow> True | Some r \<Rightarrow> r \<le> 0)
      in if use_default
         then (case segmento c of
                 None \<Rightarrow> DEFAULT_RENTA
               | Some seg \<Rightarrow> dict_get (map_of DEFAULT_RENTA_BY_SEGMENT) seg DEFAULT_RENTA)
         else (case renta c of Some r \<Rightarrow> r | None \<Rightarrow> DEFAULT_RENTA))"

text \<open>
  \<open>float(n)\<close> of a Python integer: the integer is rounded to the nearest double, a tie
  going to the even neighbour, and \<open>OverflowError\<close> is raised when the result would exceed
  the largest finite double \<open>2\<^sup>1\<^sup>0\<^sup>2\<^sup>4 - 2\<^sup>9\<^sup>7\<^sup>1\<close>, that is from \<open>2\<^sup>1\<^sup>0\<^sup>2\<^sup>4 - 2\<^sup>9\<^sup>7\<^sup>0\<close> on. Below
  that bound the value is the integer itself in this model.
\<close>

definition FLOAT_OVERFLOW :: int where
  "FLOAT_OVERFLOW = 2 ^ 1024 - 2 ^ 970"

definition py_float :: "int \<Rightarrow> error + real" where
  "py_float n = (if FLOAT_OVERFLOW \<le> \<bar>n\<bar> then Inl OverflowError else Inr (real_of_int n))"

definition numeric_block :: "client_features \<Rightarrow> features \<Rightarrow> error + features" where
  "numeric_block c features0 =
     (case py_float (case age c of Some a \<Rightarrow> max 18 (min 100 a) | None \<Rightarrow> DEFAULT_AGE) of
        Inl e \<Rightarrow> Inl e
      | Inr age_f \<Rightarrow>
     (let features = features0(''age'' \<mapsto> age_f);
          features = features(''log_renta'' \<mapsto> ln (1 + renta_value c))
      in case py_float (case antiguedad c of
                          None \<Rightarrow> DEFAULT_ANTIGUEDAD
                        | Some a \<Rightarrow> if a = - 999999 then DEFAULT_ANTIGUEDAD else a) of
           Inl e \<Rightarrow> Inl e
         | Inr antiguedad_f \<Rightarrow>
     (case py_float (case ind_nuevo c of Some v \<Rightarrow> v | None \<Rightarrow> 0) of
        Inl e \<Rightarrow> Inl e
      | Inr ind_nuevo_f \<Rightarrow>
     (case py_float (case indrel c of Some v \<Rightarrow> v | None \<Rightarrow> 1) of
        Inl e \<Rightarrow> Inl e
      | Inr indrel_f \<Rightarrow>
     (case py_float (case ind_actividad_cliente c of Some v \<Rightarrow> v | None \<Rightarrow> 1) of
        Inl e \<Rightarrow> Inl e
      | Inr ind_actividad_f \<Rightarrow>
     (case py_float (case cod_prov c of Some v \<Rightarrow> v | None \<Rightarrow> 28) of
        Inl e \<Rightarrow> Inl e
      | Inr cod_prov_f \<Rightarrow>
          Inr (features(''antiguedad'' \<mapsto> antiguedad_f, ''ind_nuevo'' \<mapsto> ind_nuevo_f,
                        ''indrel'' \<mapsto> indrel_f,
                        ''ind_actividad_cliente'' \<mapsto> ind_actividad_f,
                        ''cod_prov'' \<mapsto> cod_prov_f))))))))"

text \<open>The eight low-cardinality categorical fields, in the order of the dictionary literal.\<close>

definition low_card_fields :: "client_features \<Rightarrow> (string \<times> string option) list" where
  "low_card_fields c =
     [(''sexo'', sexo c), (''ind_empleado'', ind_empleado c), (''tiprel_1mes'', tiprel_1mes c),
      (''indresi'', indresi c), (''indext'', indext c), (''indfall'', indfall c),
      (''segmento'', segmento c), (''indrel_1mes'', indrel_1mes c)]"

text \<open>\<open>label_encoders[name]\<close> raises \<open>KeyError\<close> when the artifact has no such encoder.\<close>

definition get_encoder :: "(string \<times> encoder) list \<Rightarrow> string \<Rightarrow> error + encoder" where
  "get_encoder encs name = (case map_of encs name of None \<Rightarrow> Inl (KeyError name) | Some e \<Rightarrow> Inr e)"

definition encode_with :: "(string \<times> encoder) list \<Rightarrow> string \<Rightarrow> string \<Rightarrow> error + int" where
  "encode_with encs name v =
     (case get_encoder encs name of Inl e \<Rightarrow> Inl e | Inr enc \<Rightarrow> safe_label_encode enc v)"

fun low_card_block ::
  "(string \<times> encoder) list \<Rightarrow> (string \<times> string option) list \<Rightarrow> features \<Rightarrow> error + features"
where
  "low_card_block encs [] features = Inr features"
| "low_card_block encs ((col_name, v) # rest) features =
     (let val_str = (case v of Some s \<Rightarrow> s | None \<Rightarrow> ''nan'')
      in case encode_with encs col_name val_str of
           Inl e \<Rightarrow> Inl e
         | Inr code \<Rightarrow>
             low_card_block encs rest (features(col_name @ ''_enc'' \<mapsto> real_of_int code)))"

text \<open>Whitelisted fields: the raw value when it is in the top-20 list, else \<open>OTHER\<close>.\<close>

definition clean_top20 :: "string option \<Rightarrow> string list \<Rightarrow> string" where
  "clean_top20 v top20 =
     (case v of None \<Rightarrow> ''OTHER'' | Some s \<Rightarrow> if s \<in> set top20 then s else ''OTHER'')"

text \<open>The previous-products loop, with its two accumulators.\<close>

fun prev_block :: "(string \<rightharpoonup> int) \<Rightarrow> string list \<Rightarrow> features \<times> int \<Rightarrow> features \<times> int" where
  "prev_block prev [] (features, n_products) = (features, n_products)"
| "prev_block prev (col # cols) (features, n_products) =
     (let val0 = dict_get prev col 0;
          val = (if val0 \<noteq> 0 then 1 else 0)
      in prev_block prev cols (features(''prev_'' @ col \<mapsto> real_of_int val), n_products + val))"

text \<open>
  The date used for the temporal features: the parsed observation date when the field
  is a non-empty string that parses, the current date \<open>now\<close> otherwise.
\<close>

definition observation_date :: "datetime \<Rightarrow> client_features \<Rightarrow> error + datetime" where
  "observation_date now c =
     (case fecha_dato c of
        None \<Rightarrow> Inr now
      | Some s \<Rightarrow>
          if s = [] then Inr now
          else (case strptime_ymd s of
                  Inr dt \<Rightarrow> Inr dt
                | Inl (ValueError _) \<Rightarrow> Inr now
                | Inl e \<Rightarrow> Inl e))"

definition temporal_block :: "datetime \<Rightarrow> features \<Rightarrow> features" where
  "temporal_block dt features0 =
     (let features = features0(''month'' \<mapsto> real_of_int (month dt));
          months_since = (year dt - year DATASET_START) * 12 + (month dt - month DATASET_START)
      in features(''months_since_start'' \<mapsto> real_of_int (max 0 months_since)))"

definition compute_features :: "artifact \<Rightarrow> datetime \<Rightarrow> client_features \<Rightarrow> error + features" where
  "compute_features art now c =
     (case numeric_block c Map.empty of
        Inl e \<Rightarrow> Inl e
      | Inr features \<Rightarrow>
      (case low_card_block (label_encoders art) (low_card_fields c) features of
           Inl e \<Rightarrow> Inl e
         | Inr features \<Rightarrow>
      (case encode_with (label_encoders art) ''canal_entrada''
              (clean_top20 (canal_entrada c) (top20_canal art)) of
           Inl e \<Rightarrow> Inl e
         | Inr canal_code \<Rightarrow>
      (let features = features(''canal_entrada_enc'' \<mapsto> real_of_int canal_code);
           features = features(''pais_residencia_enc'' \<mapsto>
                        (if pais_residencia c = Some ''ES'' then 1 else 0))
       in case encode_with (label_encoders art) ''nomprov''
                 (clean_top20 (nomprov c) (top20_prov art)) of
            Inl e \<Rightarrow> Inl e
          | Inr prov_code \<Rightarrow>
      (let features = features(''nomprov_enc'' \<mapsto> real_of_int prov_code);
           (features, n_products) = prev_block (prev_products c) (product_cols art) (features, 0);
           features = features(''n_products'' \<mapsto> real_of_int n_products);
           features = features(''product_changes'' \<mapsto>
                        real_of_int (case product_changes c of Some v \<Rightarrow> v | None \<Rightarrow> 0))
       in case observation_date now c of
            Inl e \<Rightarrow> Inl e
          | Inr dt \<Rightarrow> Inr (temporal_block dt features))))))"

text \<open>
  Output assembly: the dictionary comprehension \<open>{col: features.get(col, 0)}\<close> over
  \<open>feature_cols\<close>, materialised by the \<open>DataFrame\<close> constructor in the order of
  \<open>columns=feature_cols\<close>. The constructor is a library call, taken to accept the row.
\<close>

definition assemble :: "string list \<Rightarrow> features \<Rightarrow> dataframe" where
  "assemble cols features = map (\<lambda>col. (col, dict_get features col 0)) cols"

definition preprocess :: "artifact \<Rightarrow> datetime \<Rightarrow> client_features \<Rightarrow> error + dataframe" where
  "preprocess art now c =
     (case compute_features art now c of
        Inl e \<Rightarrow> Inl e
      | Inr features \<Rightarrow> Inr (assemble (feature_cols art) features))"

section \<open>\<open>BankPredictor.predict\<close>\<close>

record recommendation =
  product_col :: string
  product_name :: string
  probability :: real

record prediction =
  recommendations :: "recommendation list"
  n_current_products :: int

text \<open>
  Scoring: \<open>models[col]\<close> raises \<open>KeyError\<close> for a product without a classifier,
  \<open>predict_proba(X)[0]\<close> is the row of class probabilities, and the positive class is
  \<open>prob[1]\<close> when the row has more than one entry, \<open>prob[0]\<close> otherwise. The dictionary
  \<open>probabilities\<close> keeps insertion order; assigning to a key that already exists replaces
  the value in place, which is what \<open>AList.update\<close> does.
\<close>

definition positive_class :: "real list \<Rightarrow> error + real" where
  "positive_class prob = (if 1 < length prob then Inr (prob ! 1) else first_item prob)"

definition score_one :: "(string \<times> classifier) list \<Rightarrow> dataframe \<Rightarrow> string \<Rightarrow> error + real" where
  "score_one ms X col =
     (case map_of ms col of
        None \<Rightarrow> Inl (KeyError col)
      | Some model \<Rightarrow>
          (case model X of
             Inl e \<Rightarrow> Inl e
           | Inr rows \<Rightarrow>
               (case first_item rows of
                  Inl e \<Rightarrow> Inl e
                | Inr prob \<Rightarrow> positive_class prob)))"

fun score_products ::
  "(string \<times> classifier) list \<Rightarrow> dataframe \<Rightarrow> string list \<Rightarrow> (string \<times> real) list
     \<Rightarrow> error + (string \<times> real) list"
where
  "score_products ms X [] probabilities = Inr probabilities"
| "score_products ms X (col # cols) probabilities =
     (case score_one ms X col of
        Inl e \<Rightarrow> Inl e
      | Inr p1 \<Rightarrow> score_products ms X cols (AList.update col p1 probabilities))"

text \<open>The exclusion loop: the probability of every product whose flag equals 1 becomes 0.\<close>

fun zero_owned ::
  "(string \<rightharpoonup> int) \<Rightarrow> string list \<Rightarrow> (string \<times> real) list \<Rightarrow> (string \<times> real) list"
where
  "zero_owned prev [] probabilities = probabilities"
| "zero_owned prev (col # cols) probabilities =
     zero_owned prev cols
       (if dict_get prev col 0 = 1 then AList.update col 0 probabilities else probabilities)"

text \<open>
  \<open>sorted(probabilities.items(), key=lambda x: x[1], reverse=True)\<close>: a stable sort by
  descending probability, so entries of equal probability keep their insertion order.
  \<open>sort_key\<close> is a stable insertion sort; the key is negated for the descending order.
\<close>

definition sorted_desc :: "(string \<times> real) list \<Rightarrow> (string \<times> real) list" where
  "sorted_desc items = sort_key (\<lambda>x. - snd x) items"

text \<open>The slice \<open>xs[:k]\<close>; a negative \<open>k\<close> counts from the end.\<close>

definition slice_to :: "int \<Rightarrow> 'a list \<Rightarrow> 'a list" where
  "slice_to k xs = (if k < 0 then take (nat (int (length xs) + k)) xs else take (nat k) xs)"

text \<open>
  \<open>round(prob, 6)\<close>: to the nearest multiple of \<open>10\<^sup>-\<^sup>6\<close>, a tie going to the even
  neighbour.
\<close>

definition round_half_even :: "real \<Rightarrow> int" where
  "round_half_even x =
     (let f = \<lfloor>x\<rfloor>; r = x - of_int f
      in if r < 1 / 2 then f
         else if 1 / 2 < r then f + 1
         else if even f then f else f + 1)"

definition py_round6 :: "real \<Rightarrow> real" where
  "py_round6 p = real_of_int (round_half_even (p * 1000000)) / 1000000"

fun build_recommendations ::
  "(string \<times> string) list \<Rightarrow> (string \<times> real) list \<Rightarrow> recommendation list"
where
  "build_recommendations names [] = []"
| "build_recommendations names ((col, prob) # rest) =
     (if 0 < prob
      then \<lparr>product_col = col,
            product_name = dict_get (map_of names) col col,
            probability = py_round6 prob\<rparr> # build_recommendations names rest
      else build_recommendations names rest)"

definition count_owned :: "(string \<rightharpoonup> int) \<Rightarrow> string list \<Rightarrow> int" where
  "count_owned prev cols = int (length (filter (\<lambda>col. dict_get prev col 0 = 1) cols))"

text \<open>The probability dictionary as it enters the ranking: scored, then owned products zeroed.\<close>

definition ranking_input ::
  "artifact \<Rightarrow> dataframe \<Rightarrow> client_features \<Rightarrow> error + (string \<times> real) list"
where
  "ranking_input art X c =
     (case score_products (models art) X (product_cols art) [] of
        Inl e \<Rightarrow> Inl e
      | Inr probabilities \<Rightarrow> Inr (zero_owned (prev_products c) (product_cols art) probabilities))"

text \<open>
  \<open>predict\<close>. The current date is an explicit argument, since \<open>_preprocess\<close> reads the
  clock. The metric observations are not part of the returned value and are left out.
\<close>

definition predict :: "artifact \<Rightarrow> datetime \<Rightarrow> client_features \<Rightarrow> error + prediction" where
  "predict art now c =
     (case preprocess art now c of
        Inl e \<Rightarrow> Inl e
      | Inr X \<Rightarrow>
          (case ranking_input art X c of
             Inl e \<Rightarrow> Inl e
           | Inr probabilities \<Rightarrow>
               (let sorted_products = sorted_desc probabilities;
                    recs = build_recommendations (product_names art)
                             (slice_to (top_k c) sorted_products);
                    n_current = count_owned (prev_products c) (product_cols art)
                in Inr \<lparr>recommendations = recs, n_current_products = n_current\<rparr>)))"

section \<open>\<open>ModelStore\<close>\<close>

text \<open>
  The deserialised bundle before validation: a dictionary in which any of the eight
  expected keys may be missing.
\<close>

record raw_artifact =
  b_models :: "(string \<times> classifier) list option"
  b_feature_cols :: "string list option"
  b_target_cols :: "string list option"
  b_product_cols :: "string list option"
  b_label_encoders :: "(string \<times> encoder) list option"
  b_product_names :: "(string \<times> string) list option"
  b_top20_canal :: "string list option"
  b_top20_prov :: "string list option"

definition EXPECTED_KEYS :: "string set" where
  "EXPECTED_KEYS = {''models'', ''feature_cols'', ''target_cols'', ''product_cols'',
                    ''label_encoders'', ''product_names'', ''top20_canal'', ''top20_prov''}"

definition present :: "string \<Rightarrow> 'a option \<Rightarrow> string set" where
  "present name v = (case v of None \<Rightarrow> {} | Some _ \<Rightarrow> {name})"

definition bundle_keys :: "raw_artifact \<Rightarrow> string set" where
  "bundle_keys b =
     present ''models'' (b_models b) \<union> present ''feature_cols'' (b_feature_cols b)
     \<union> present ''target_cols'' (b_target_cols b) \<union> present ''product_cols'' (b_product_cols b)
     \<union> present ''label_encoders'' (b_label_encoders b)
     \<union> present ''product_names'' (b_product_names b)
     \<union> present ''top20_canal'' (b_top20_canal b) \<union> present ''top20_prov'' (b_top20_prov b)"

text \<open>The four checks of \<open>_validate\<close>, each appending to \<open>errors\<close>.\<close>

definition check_missing_keys :: "raw_artifact \<Rightarrow> violation list \<Rightarrow> violation list" where
  "check_missing_keys b errors =
     (let missing_keys = EXPECTED_KEYS - bundle_keys b
      in if missing_keys \<noteq> {} then errors @ [MissingKeys missing_keys] else errors)"

definition check_models :: "raw_artifact \<Rightarrow> violation list \<Rightarrow> violation list" where
  "check_models b errors =
     (case b_models b of
        None \<Rightarrow> errors
      | Some ms \<Rightarrow> if length ms = 0 then errors @ [ModelsEmpty] else errors)"

definition check_product_cols :: "raw_artifact \<Rightarrow> violation list \<Rightarrow> violation list" where
  "check_product_cols b errors =
     (case b_models b of
        None \<Rightarrow> errors
      | Some ms \<Rightarrow>
          (case b_product_cols b of
             None \<Rightarrow> errors
           | Some pcs \<Rightarrow>
               (let model_keys = set (map fst ms); product_set = set pcs
                in if model_keys \<noteq> product_set
                   then errors @ [KeysMismatch (model_keys - product_set) (product_set - model_keys)]
                   else errors)))"

definition check_label_encoders :: "raw_artifact \<Rightarrow> violation list \<Rightarrow> violation list" where
  "check_label_encoders b errors =
     (case b_label_encoders b of
        None \<Rightarrow> errors
      | Some encs \<Rightarrow> if length encs = 0 then errors @ [EncodersEmpty] else errors)"

definition collect_errors :: "raw_artifact \<Rightarrow> violation list" where
  "collect_errors b =
     check_label_encoders b (check_product_cols b (check_models b (check_missing_keys b [])))"

definition validate :: "raw_artifact \<Rightarrow> error + unit" where
  "validate b =
     (let errors = collect_errors b
      in if errors \<noteq> [] then Inl (ValueError (ValidationFailed errors)) else Inr ())"

text \<open>
  The store: \<open>_artifact\<close> and \<open>_loaded\<close>. \<open>load_model\<close> takes the bundle that \<open>joblib.load\<close>
  returned; it stores the bundle before validating it and sets \<open>_loaded\<close> only after
  validation has passed.
\<close>

record model_store =
  store_artifact :: "raw_artifact option"
  store_loaded :: bool

definition new_store :: model_store where
  "new_store = \<lparr>store_artifact = None, store_loaded = False\<rparr>"

definition load_model :: "model_store \<Rightarrow> raw_artifact \<Rightarrow> (error + unit) \<times> model_store" where
  "load_model store b =
     (let store1 = store\<lparr>store_artifact := Some b\<rparr>
      in case validate b of
           Inl e \<Rightarrow> (Inl e, store1)
         | Inr _ \<Rightarrow> (Inr (), store1\<lparr>store_loaded := True\<rparr>))"

definition is_loaded :: "model_store \<Rightarrow> bool" where
  "is_loaded store = store_loaded store"

section \<open>A small artifact and client for concrete evaluation\<close>

definition demo_encoder :: encoder where
  "demo_encoder = \<lparr>classes = [''H'', ''V'', ''nan'']\<rparr>"

definition bare_encoder :: encoder where
  "bare_encoder = \<lparr>classes = [''H'', ''V'']\<rparr>"

definition demo_encoders :: "(string \<times> encoder) list" where
  "demo_encoders =
     map (\<lambda>name. (name, demo_encoder))
       [''sexo'', ''ind_empleado'', ''tiprel_1mes'', ''indresi'', ''indext'', ''indfall'',
        ''segmento'', ''indrel_1mes'', ''canal_entrada'', ''nomprov'']"

definition const_classifier :: "real \<Rightarrow> classifier" where
  "const_classifier p X = Inr [[1 - p, p]]"

definition month_classifier :: classifier where
  "month_classifier X =
     Inr [[1 - dict_get (map_of X) ''month'' 0 / 100, dict_get (map_of X) ''month'' 0 / 100]]"

definition demo_artifact :: artifact where
  "demo_artifact =
     \<lparr>models = [(''aho'', const_classifier (1 / 2)), (''cta'', const_classifier (1 / 4)),
                (''tjc'', month_classifier), (''fon'', const_classifier (1 / 4194304))],
      feature_cols = [''age'', ''log_renta'', ''month'', ''spare''],
      product_cols = [''aho'', ''cta'', ''tjc'', ''fon''],
      product_names = [(''aho'', ''Savings'')],
      label_encoders = demo_encoders,
      top20_canal = [''KHE''],
      top20_prov = [''MADRID'']\<rparr>"

definition demo_client :: client_features where
  "demo_client =
     \<lparr>age = Some 35, renta = None, antiguedad = None, sexo = Some ''H'',
      segmento = Some ''01 - TOP'', canal_entrada = None, pais_residencia = Some ''ES'',
      nomprov = None, ind_empleado = None, tiprel_1mes = None, indresi = None,
      indext = None, indfall = None, indrel_1mes = None, ind_nuevo = None, indrel = None,
      ind_actividad_cliente = None, cod_prov = None,
      prev_products = [''aho'' \<mapsto> 1, ''cta'' \<mapsto> 2],
      product_changes = None, fecha_dato = Some ''2016-05-28'', top_k = 4\<rparr>"

definition undated_client :: client_features where
  "undated_client = demo_client\<lparr>fecha_dato := None\<rparr>"

definition demo_now :: datetime where
  "demo_now = Datetime 2026 11 3"

definition later_now :: datetime where
  "later_now = Datetime 2026 12 3"

definition demo_prediction :: prediction where
  "demo_prediction =
     \<lparr>recommendations =
        [\<lparr>product_col = ''cta'', product_name = ''cta'', probability = 1 / 4\<rparr>,
         \<lparr>product_col = ''tjc'', product_name = ''tjc'', probability = 1 / 20\<rparr>,
         \<lparr>product_col = ''fon'', product_name = ''fon'', probability = 0\<rparr>],
      n_current_products = 1\<rparr>"

definition demo_frame :: dataframe where
  "demo_frame = [(''age'', 35), (''log_renta'', ln 234341), (''month'', 5), (''spare'', 0)]"

definition single_classifier :: "real \<Rightarrow> classifier" where
  "single_classifier p X = Inr [[p]]"

definition single_artifact :: artifact where
  "single_artifact =
     demo_artifact\<lparr>models := [(''aho'', single_classifier (1 / 3)),
                              (''cta'', const_classifier (1 / 4))],
                   product_cols := [''aho'', ''cta'']\<rparr>"

text \<open>A bundle that violates all four checks at once.\<close>

definition bad_bundle :: raw_artifact where
  "bad_bundle =
     \<lparr>b_models = Some [], b_feature_cols = None, b_target_cols = Some [],
      b_product_cols = Some [''aho''], b_label_encoders = Some [],
      b_product_names = Some [], b_top20_canal = Some [], b_top20_prov = Some []\<rparr>"

section \<open>Names used to state the properties\<close>

text \<open>
  The encoders that \<open>_preprocess\<close> reads from \<open>label_encoders\<close>, and the keys under which
  it stores a value in \<open>features\<close>: the fixed ones, and one \<open>prev_\<close> key per product.
\<close>

definition encoder_names :: "string list" where
  "encoder_names =
     [''sexo'', ''ind_empleado'', ''tiprel_1mes'', ''indresi'', ''indext'', ''indfall'',
      ''segmento'', ''indrel_1mes'', ''canal_entrada'', ''nomprov'']"

definition fixed_feature_names :: "string list" where
  "fixed_feature_names =
     [''age'', ''log_renta'', ''antiguedad'', ''ind_nuevo'', ''indrel'',
      ''ind_actividad_cliente'', ''cod_prov'',
      ''sexo_enc'', ''ind_empleado_enc'', ''tiprel_1mes_enc'', ''indresi_enc'', ''indext_enc'',
      ''indfall_enc'', ''segmento_enc'', ''indrel_1mes_enc'',
      ''canal_entrada_enc'', ''pais_residencia_enc'', ''nomprov_enc'',
      ''n_products'', ''product_changes'', ''month'', ''months_since_start'']"

definition computed_names :: "artifact \<Rightarrow> string set" where
  "computed_names art =
     set fixed_feature_names \<union> (\<lambda>col. ''prev_'' @ col) ` set (product_cols art)"

text \<open>
  The optional integers that \<open>_preprocess\<close> passes to \<open>float\<close> lie below the overflow
  bound. \<open>float_range\<close> is also asked of \<open>product_changes\<close>, the one integer of the record
  that reaches the \<open>DataFrame\<close> constructor as it is, where the vector is claimed to exist.
\<close>

definition float_range :: "int option \<Rightarrow> bool" where
  "float_range v = (case v of None \<Rightarrow> True | Some n \<Rightarrow> \<bar>n\<bar> < FLOAT_OVERFLOW)"

definition numeric_in_range :: "client_features \<Rightarrow> bool" where
  "numeric_in_range c =
     (float_range (antiguedad c) \<and> float_range (ind_nuevo c) \<and> float_range (indrel c)
      \<and> float_range (ind_actividad_cliente c) \<and> float_range (cod_prov c))"

text \<open>The default income of a segment, as the claim about the income feature words it.\<close>

definition segment_default :: "string option \<Rightarrow> real" where
  "segment_default seg =
     (if seg = Some ''01 - TOP'' then 234340
      else if seg = Some ''02 - PARTICULARES'' then 101340
      else if seg = Some ''03 - UNIVERSITARIO'' then 86200
      else 101850)"

section \<open>Properties of the encoder\<close>

lemma lookup_code_None: "lookup_code cs v = None \<longleftrightarrow> v \<notin> set cs"
  by (induction cs) auto

lemma lookup_code_Some: "v \<in> set cs \<Longrightarrow> \<exists>i. lookup_code cs v = Some i"
  using lookup_code_None [of cs v] by (cases "lookup_code cs v") auto

lemma transform_first_known:
  "v \<in> set (classes enc) \<Longrightarrow>
     \<exists>i. lookup_code (classes enc) v = Some i \<and> transform_first enc v = Inr (int i)"
  using lookup_code_Some [of v "classes enc"]
  by (auto simp: transform_first_def first_item_def)

lemma transform_first_unknown:
  "v \<notin> set (classes enc) \<Longrightarrow> transform_first enc v = Inl (ValueError (UnseenLabel v))"
  using lookup_code_None [of "classes enc" v]
  by (simp add: transform_first_def)

lemma safe_label_encode_cases:
  "safe_label_encode enc v =
     (if v \<in> set (classes enc) then transform_first enc v
      else if ''nan'' \<in> set (classes enc) then transform_first enc ''nan''
      else Inr 0)"
proof (cases "v \<in> set (classes enc)")
  case True
  then obtain i where "transform_first enc v = Inr (int i)"
    using transform_first_known by blast
  with True show ?thesis by (simp add: safe_label_encode_def)
next
  case False
  then show ?thesis
    by (simp add: safe_label_encode_def transform_first_unknown)
qed

lemma safe_label_encode_total: "\<exists>n. safe_label_encode enc v = Inr n"
proof (cases "v \<in> set (classes enc)")
  case True
  then show ?thesis
    using transform_first_known [of v enc] by (auto simp: safe_label_encode_cases)
next
  case False
  then show ?thesis
    using transform_first_known [of "''nan''" enc] by (auto simp: safe_label_encode_cases)
qed

text \<open>
  Claim C4. For every encoder and every input string, safe-encode returns the encoder's
  code for the string when the string is in the vocabulary; otherwise the encoder's code
  for the literal \<open>nan\<close> when that is in the vocabulary; otherwise 0. In all three cases
  the result is a value, never an exception, also for the empty string.
\<close>

theorem safe_label_encode_three_tier:
  "(v \<in> set (classes enc) \<longrightarrow>
      (\<exists>i. lookup_code (classes enc) v = Some i \<and> transform enc [v] = Inr [int i]
           \<and> safe_label_encode enc v = Inr (int i)))
   \<and> (v \<notin> set (classes enc) \<and> ''nan'' \<in> set (classes enc) \<longrightarrow>
      (\<exists>i. lookup_code (classes enc) ''nan'' = Some i \<and> transform enc [''nan''] = Inr [int i]
           \<and> safe_label_encode enc v = Inr (int i)))
   \<and> (v \<notin> set (classes enc) \<and> ''nan'' \<notin> set (classes enc) \<longrightarrow>
      safe_label_encode enc v = Inr 0)
   \<and> (\<exists>n. safe_label_encode enc v = Inr n)
   \<and> (\<exists>n. safe_label_encode enc [] = Inr n)"
proof (intro conjI impI)
  assume "v \<in> set (classes enc)"
  then show "\<exists>i. lookup_code (classes enc) v = Some i \<and> transform enc [v] = Inr [int i]
      \<and> safe_label_encode enc v = Inr (int i)"
    using transform_first_known [of v enc] by (auto simp: safe_label_encode_cases)
next
  assume "v \<notin> set (classes enc) \<and> ''nan'' \<in> set (classes enc)"
  then show "\<exists>i. lookup_code (classes enc) ''nan'' = Some i
      \<and> transform enc [''nan''] = Inr [int i] \<and> safe_label_encode enc v = Inr (int i)"
    using transform_first_known [of "''nan''" enc] by (auto simp: safe_label_encode_cases)
next
  assume "v \<notin> set (classes enc) \<and> ''nan'' \<notin> set (classes enc)"
  then show "safe_label_encode enc v = Inr 0"
    by (simp add: safe_label_encode_cases)
next
  show "\<exists>n. safe_label_encode enc v = Inr n"
    by (rule safe_label_encode_total)
next
  show "\<exists>n. safe_label_encode enc [] = Inr n"
    by (rule safe_label_encode_total)
qed


theorem safe_label_encode_three_tier_witness:
  "''V'' \<in> set (classes demo_encoder) \<and> safe_label_encode demo_encoder ''V'' = Inr 1
   \<and> ''X'' \<notin> set (classes demo_encoder) \<and> ''nan'' \<in> set (classes demo_encoder)
   \<and> safe_label_encode demo_encoder ''X'' = Inr 2
   \<and> [] \<notin> set (classes bare_encoder) \<and> ''nan'' \<notin> set (classes bare_encoder)
   \<and> safe_label_encode bare_encoder [] = Inr 0"
  using safe_label_encode_three_tier [of "''V''" demo_encoder]
        safe_label_encode_three_tier [of "''X''" demo_encoder]
        safe_label_encode_three_tier [of "[]" bare_encoder]
  by (simp add: demo_encoder_def bare_encoder_def)

section \<open>Properties of the feature builder\<close>

text \<open>The names under which \<open>_preprocess\<close> stores a value in \<open>features\<close>.\<close>

lemma low_card_names:
  "map fst (low_card_fields c) =
     [''sexo'', ''ind_empleado'', ''tiprel_1mes'', ''indresi'', ''indext'', ''indfall'',
      ''segmento'', ''indrel_1mes'']"
  by (simp add: low_card_fields_def)

lemma low_card_block_other:
  "low_card_block encs flds f = Inr f' \<Longrightarrow>
     k \<notin> (\<lambda>n. n @ ''_enc'') ` set (map fst flds) \<Longrightarrow> f' k = f k"
proof (induction flds arbitrary: f)
  case Nil
  then show ?case by simp
next
  case (Cons p flds)
  obtain n v where p: "p = (n, v)" by (cases p)
  from Cons.prems obtain code where
    step: "low_card_block encs flds (f(n @ ''_enc'' \<mapsto> real_of_int code)) = Inr f'"
    by (auto simp: p Let_def split: sum.splits)
  from Cons.prems have k: "k \<notin> (\<lambda>n. n @ ''_enc'') ` set (map fst flds)" and kn: "k \<noteq> n @ ''_enc''"
    by (auto simp: p)
  have "f' k = (f(n @ ''_enc'' \<mapsto> real_of_int code)) k"
    by (rule Cons.IH [OF step k])
  with kn show ?case by simp
qed

lemma low_card_block_dom:
  "low_card_block encs flds f = Inr f' \<Longrightarrow>
     dom f' = dom f \<union> (\<lambda>n. n @ ''_enc'') ` set (map fst flds)"
proof (induction flds arbitrary: f)
  case Nil
  then show ?case by simp
next
  case (Cons p flds)
  obtain n v where p: "p = (n, v)" by (cases p)
  from Cons.prems obtain code where
    step: "low_card_block encs flds (f(n @ ''_enc'' \<mapsto> real_of_int code)) = Inr f'"
    by (auto simp: p Let_def split: sum.splits)
  have "dom f' = dom (f(n @ ''_enc'' \<mapsto> real_of_int code))
                  \<union> (\<lambda>n. n @ ''_enc'') ` set (map fst flds)"
    by (rule Cons.IH [OF step])
  then show ?case by (auto simp: p)
qed

lemma encode_with_returns:
  "name \<in> fst ` set encs \<Longrightarrow> \<exists>code. encode_with encs name v = Inr code"
proof -
  assume "name \<in> fst ` set encs"
  then obtain enc where "map_of encs name = Some enc"
    by (metis domD dom_map_of_conv_image_fst)
  then show ?thesis
    using safe_label_encode_total [of enc v]
    by (simp add: encode_with_def get_encoder_def)
qed

lemma low_card_block_returns:
  "set (map fst flds) \<subseteq> fst ` set encs \<Longrightarrow> \<exists>f'. low_card_block encs flds f = Inr f'"
proof (induction flds arbitrary: f)
  case Nil
  then show ?case by simp
next
  case (Cons p flds)
  obtain n v where p: "p = (n, v)" by (cases p)
  from Cons.prems have "n \<in> fst ` set encs" by (simp add: p)
  then obtain code where
    "encode_with encs n (case v of Some s \<Rightarrow> s | None \<Rightarrow> ''nan'') = Inr code"
    using encode_with_returns by blast
  moreover from Cons.prems have "set (map fst flds) \<subseteq> fst ` set encs" by simp
  ultimately show ?case
    using Cons.IH by (simp add: p)
qed

lemma prev_block_step:
  "prev_block prev (col # cols) (f, n) =
     prev_block prev cols
       (f(''prev_'' @ col \<mapsto> (if dict_get prev col 0 \<noteq> 0 then 1 else 0)),
        n + (if dict_get prev col 0 \<noteq> 0 then 1 else 0))"
  by (simp add: Let_def)

lemma prev_block_other:
  "prev_block prev cols (f, n) = (f', n') \<Longrightarrow>
     k \<notin> (\<lambda>col. ''prev_'' @ col) ` set cols \<Longrightarrow> f' k = f k"
proof (induction cols arbitrary: f n)
  case Nil
  then show ?case by simp
next
  case (Cons a cols)
  from Cons.prems(2) have k: "k \<notin> (\<lambda>col. ''prev_'' @ col) ` set cols" and ka: "k \<noteq> ''prev_'' @ a"
    by auto
  from Cons.prems(1) have "f' k = (f(''prev_'' @ a \<mapsto> (if dict_get prev a 0 \<noteq> 0 then 1 else 0))) k"
    unfolding prev_block_step by (rule Cons.IH [OF _ k])
  with ka show ?case by simp
qed

lemma prev_block_dom:
  "prev_block prev cols (f, n) = (f', n') \<Longrightarrow>
     dom f' = dom f \<union> (\<lambda>col. ''prev_'' @ col) ` set cols"
proof (induction cols arbitrary: f n)
  case Nil
  then show ?case by simp
next
  case (Cons a cols)
  from Cons.prems have
    "dom f' = dom (f(''prev_'' @ a \<mapsto> (if dict_get prev a 0 \<noteq> 0 then 1 else 0::real)))
               \<union> (\<lambda>col. ''prev_'' @ col) ` set cols"
    unfolding prev_block_step by (rule Cons.IH)
  then show ?case by auto
qed

lemma prev_block_count:
  "prev_block prev cols (f, n) = (f', n') \<Longrightarrow>
     n' = n + int (length (filter (\<lambda>col. dict_get prev col 0 \<noteq> 0) cols))"
proof (induction cols arbitrary: f n)
  case Nil
  then show ?case by simp
next
  case (Cons a cols)
  from Cons.prems have
    "n' = (n + (if dict_get prev a 0 \<noteq> 0 then 1 else 0))
          + int (length (filter (\<lambda>col. dict_get prev col 0 \<noteq> 0) cols))"
    unfolding prev_block_step by (rule Cons.IH)
  then show ?case by simp
qed

lemma prev_block_flag:
  "prev_block prev cols (f, n) = (f', n') \<Longrightarrow> col \<in> set cols \<Longrightarrow>
     f' (''prev_'' @ col) = Some (if dict_get prev col 0 \<noteq> 0 then 1 else 0)"
proof (induction cols arbitrary: f n)
  case Nil
  then show ?case by simp
next
  case (Cons a cols)
  note step = Cons.prems(1) [unfolded prev_block_step]
  show ?case
  proof (cases "col \<in> set cols")
    case True
    show ?thesis by (rule Cons.IH [OF step True])
  next
    case False
    with Cons.prems have a: "a = col" by simp
    from False have "''prev_'' @ col \<notin> (\<lambda>col. ''prev_'' @ col) ` set cols" by auto
    from prev_block_other [OF step this] show ?thesis by (simp add: a)
  qed
qed

lemma strptime_ymd_error: "strptime_ymd s = Inl e \<Longrightarrow> \<exists>v. e = ValueError v"
  by (auto simp: strptime_ymd_def split: option.splits prod.splits if_splits)

lemma observation_date_returns: "\<exists>dt. observation_date now c = Inr dt"
proof (cases "fecha_dato c")
  case None
  then show ?thesis by (simp add: observation_date_def)
next
  case (Some s)
  show ?thesis
  proof (cases "strptime_ymd s")
    case (Inl e)
    then obtain v where "e = ValueError v" using strptime_ymd_error by blast
    with Inl Some show ?thesis by (simp add: observation_date_def)
  next
    case (Inr dt)
    with Some show ?thesis by (simp add: observation_date_def)
  qed
qed


lemma compute_features_Inr:
  assumes "compute_features art now c = Inr fs"
  obtains f0 f1 canal_code prov_code f2 n dt where
    "numeric_block c Map.empty = Inr f0"
    and "low_card_block (label_encoders art) (low_card_fields c) f0 = Inr f1"
    and "prev_block (prev_products c) (product_cols art)
           (f1(''canal_entrada_enc'' \<mapsto> real_of_int canal_code,
               ''pais_residencia_enc'' \<mapsto> (if pais_residencia c = Some ''ES'' then 1 else 0),
               ''nomprov_enc'' \<mapsto> real_of_int prov_code), 0) = (f2, n)"
    and "observation_date now c = Inr dt"
    and "fs = temporal_block dt
                (f2(''n_products'' \<mapsto> real_of_int n,
                    ''product_changes'' \<mapsto>
                       real_of_int (case product_changes c of Some v \<Rightarrow> v | None \<Rightarrow> 0)))"
  using assms unfolding compute_features_def
  by (auto simp: Let_def split: sum.splits prod.splits)

lemma py_float_returns: "\<bar>n\<bar> < FLOAT_OVERFLOW \<Longrightarrow> py_float n = Inr (real_of_int n)"
  by (simp add: py_float_def)

lemma py_float_small: "\<bar>n\<bar> \<le> 999999 \<Longrightarrow> py_float n = Inr (real_of_int n)"
  by (rule py_float_returns) (simp add: FLOAT_OVERFLOW_def)

lemma py_float_Inr: "py_float n = Inr x \<Longrightarrow> x = real_of_int n"
  by (simp add: py_float_def split: if_splits)

lemma numeric_block_returns:
  assumes "numeric_in_range c"
  shows "\<exists>f'. numeric_block c f = Inr f'"
proof -
  have age: "py_float (case age c of Some a \<Rightarrow> max 18 (min 100 a) | None \<Rightarrow> DEFAULT_AGE)
      = Inr (real_of_int (case age c of Some a \<Rightarrow> max 18 (min 100 a) | None \<Rightarrow> DEFAULT_AGE))"
    by (rule py_float_small) (auto simp: DEFAULT_AGE_def split: option.splits)
  have ant: "py_float (case antiguedad c of
                          None \<Rightarrow> DEFAULT_ANTIGUEDAD
                        | Some a \<Rightarrow> if a = - 999999 then DEFAULT_ANTIGUEDAD else a)
      = Inr (real_of_int (case antiguedad c of
                          None \<Rightarrow> DEFAULT_ANTIGUEDAD
                        | Some a \<Rightarrow> if a = - 999999 then DEFAULT_ANTIGUEDAD else a))"
    using assms
    by (intro py_float_returns)
       (auto simp: numeric_in_range_def float_range_def DEFAULT_ANTIGUEDAD_def FLOAT_OVERFLOW_def
          split: option.splits)
  have nue: "py_float (case ind_nuevo c of Some v \<Rightarrow> v | None \<Rightarrow> 0)
      = Inr (real_of_int (case ind_nuevo c of Some v \<Rightarrow> v | None \<Rightarrow> 0))"
    using assms
    by (intro py_float_returns)
       (auto simp: numeric_in_range_def float_range_def FLOAT_OVERFLOW_def split: option.splits)
  have rel: "py_float (case indrel c of Some v \<Rightarrow> v | None \<Rightarrow> 1)
      = Inr (real_of_int (case indrel c of Some v \<Rightarrow> v | None \<Rightarrow> 1))"
    using assms
    by (intro py_float_returns)
       (auto simp: numeric_in_range_def float_range_def FLOAT_OVERFLOW_def split: option.splits)
  have act: "py_float (case ind_actividad_cliente c of Some v \<Rightarrow> v | None \<Rightarrow> 1)
      = Inr (real_of_int (case ind_actividad_cliente c of Some v \<Rightarrow> v | None \<Rightarrow> 1))"
    using assms
    by (intro py_float_returns)
       (auto simp: numeric_in_range_def float_range_def FLOAT_OVERFLOW_def split: option.splits)
  have prov: "py_float (case cod_prov c of Some v \<Rightarrow> v | None \<Rightarrow> 28)
      = Inr (real_of_int (case cod_prov c of Some v \<Rightarrow> v | None \<Rightarrow> 28))"
    using assms
    by (intro py_float_returns)
       (auto simp: numeric_in_range_def float_range_def FLOAT_OVERFLOW_def split: option.splits)
  show ?thesis
    unfolding numeric_block_def age ant nue rel act prov by (simp add: Let_def)
qed

lemma numeric_block_overflow:
  "antiguedad c = Some n \<Longrightarrow> FLOAT_OVERFLOW \<le> n \<Longrightarrow> numeric_block c f = Inl OverflowError"
  by (auto simp: numeric_block_def py_float_def FLOAT_OVERFLOW_def Let_def split: sum.splits)

lemma compute_features_returns:
  assumes "set encoder_names \<subseteq> fst ` set (label_encoders art)" and "numeric_in_range c"
  shows "\<exists>fs. compute_features art now c = Inr fs"
proof -
  obtain f0 where f0: "numeric_block c Map.empty = Inr f0"
    using numeric_block_returns [OF assms(2)] by blast
  have "set (map fst (low_card_fields c)) \<subseteq> fst ` set (label_encoders art)"
    using assms by (simp add: low_card_names encoder_names_def)
  then obtain f1 where
    f1: "low_card_block (label_encoders art) (low_card_fields c) f0 = Inr f1"
    using low_card_block_returns by blast
  from assms have "''canal_entrada'' \<in> fst ` set (label_encoders art)"
    by (simp add: encoder_names_def)
  then obtain cc where cc: "encode_with (label_encoders art) ''canal_entrada''
      (clean_top20 (canal_entrada c) (top20_canal art)) = Inr cc"
    using encode_with_returns by blast
  from assms have "''nomprov'' \<in> fst ` set (label_encoders art)"
    by (simp add: encoder_names_def)
  then obtain pc where pc: "encode_with (label_encoders art) ''nomprov''
      (clean_top20 (nomprov c) (top20_prov art)) = Inr pc"
    using encode_with_returns by blast
  obtain dt where dt: "observation_date now c = Inr dt"
    using observation_date_returns by blast
  show ?thesis
    unfolding compute_features_def
    by (simp add: f0 f1 cc pc dt Let_def split: prod.splits)
qed

lemma numeric_block_Inr:
  assumes "numeric_block c f = Inr f'"
  obtains a b d e g h where
    "f' = f(''age'' \<mapsto> a, ''log_renta'' \<mapsto> ln (1 + renta_value c), ''antiguedad'' \<mapsto> b,
            ''ind_nuevo'' \<mapsto> d, ''indrel'' \<mapsto> e, ''ind_actividad_cliente'' \<mapsto> g,
            ''cod_prov'' \<mapsto> h)"
  using assms unfolding numeric_block_def
  by (auto simp: Let_def split: sum.splits)

lemma numeric_block_log_renta:
  assumes "numeric_block c f = Inr f'"
  shows "f' ''log_renta'' = Some (ln (1 + renta_value c))"
  using assms by (rule numeric_block_Inr) simp

lemma features_log_renta:
  assumes "compute_features art now c = Inr fs"
  shows "fs ''log_renta'' = Some (ln (1 + renta_value c))"
proof -
  from assms obtain f0 f1 canal_code prov_code f2 n dt where
    f0: "numeric_block c Map.empty = Inr f0"
    and f1: "low_card_block (label_encoders art) (low_card_fields c) f0 = Inr f1"
    and f2: "prev_block (prev_products c) (product_cols art)
           (f1(''canal_entrada_enc'' \<mapsto> real_of_int canal_code,
               ''pais_residencia_enc'' \<mapsto> (if pais_residencia c = Some ''ES'' then 1 else 0),
               ''nomprov_enc'' \<mapsto> real_of_int prov_code), 0) = (f2, n)"
    and fs: "fs = temporal_block dt
                (f2(''n_products'' \<mapsto> real_of_int n,
                    ''product_changes'' \<mapsto>
                       real_of_int (case product_changes c of Some v \<Rightarrow> v | None \<Rightarrow> 0)))"
    by (rule compute_features_Inr)
  have "f1 ''log_renta'' = f0 ''log_renta''"
    by (rule low_card_block_other [OF f1]) (simp add: low_card_names)
  moreover have "f2 ''log_renta'' =
      (f1(''canal_entrada_enc'' \<mapsto> real_of_int canal_code,
          ''pais_residencia_enc'' \<mapsto> (if pais_residencia c = Some ''ES'' then 1 else 0),
          ''nomprov_enc'' \<mapsto> real_of_int prov_code)) ''log_renta''"
    by (rule prev_block_other [OF f2]) auto
  ultimately show ?thesis
    by (simp add: fs temporal_block_def numeric_block_log_renta [OF f0])
qed

lemma numeric_block_dom:
  assumes "numeric_block c Map.empty = Inr f'"
  shows "dom f' =
     {''age'', ''log_renta'', ''antiguedad'', ''ind_nuevo'', ''indrel'',
      ''ind_actividad_cliente'', ''cod_prov''}"
  using assms by (rule numeric_block_Inr) (simp add: insert_commute)

lemma temporal_block_dom:
  "dom (temporal_block dt f) = insert ''month'' (insert ''months_since_start'' (dom f))"
  by (auto simp: temporal_block_def Let_def)

lemma features_dom:
  assumes "compute_features art now c = Inr fs"
  shows "dom fs = computed_names art"
proof -
  from assms obtain f0 f1 canal_code prov_code f2 n dt where
    f0: "numeric_block c Map.empty = Inr f0"
    and f1: "low_card_block (label_encoders art) (low_card_fields c) f0 = Inr f1"
    and f2: "prev_block (prev_products c) (product_cols art)
           (f1(''canal_entrada_enc'' \<mapsto> real_of_int canal_code,
               ''pais_residencia_enc'' \<mapsto> (if pais_residencia c = Some ''ES'' then 1 else 0),
               ''nomprov_enc'' \<mapsto> real_of_int prov_code), 0) = (f2, n)"
    and fs: "fs = temporal_block dt
                (f2(''n_products'' \<mapsto> real_of_int n,
                    ''product_changes'' \<mapsto>
                       real_of_int (case product_changes c of Some v \<Rightarrow> v | None \<Rightarrow> 0)))"
    by (rule compute_features_Inr)
  have d1: "dom f1 = {''age'', ''log_renta'', ''antiguedad'', ''ind_nuevo'', ''indrel'',
      ''ind_actividad_cliente'', ''cod_prov''}
      \<union> {''sexo_enc'', ''ind_empleado_enc'', ''tiprel_1mes_enc'', ''indresi_enc'', ''indext_enc'',
         ''indfall_enc'', ''segmento_enc'', ''indrel_1mes_enc''}"
    using low_card_block_dom [OF f1] by (simp add: low_card_names numeric_block_dom [OF f0])
  have d2: "dom f2 = insert ''canal_entrada_enc'' (insert ''pais_residencia_enc''
      (insert ''nomprov_enc'' (dom f1))) \<union> (\<lambda>col. ''prev_'' @ col) ` set (product_cols art)"
    using prev_block_dom [OF f2] by auto
  have "dom fs = insert ''month'' (insert ''months_since_start''
      (insert ''n_products'' (insert ''product_changes'' (dom f2))))"
    unfolding fs temporal_block_dom by auto
  then show ?thesis
    unfolding d2 d1 computed_names_def fixed_feature_names_def by auto
qed

lemma features_prev_flag:
  assumes "compute_features art now c = Inr fs" and "col \<in> set (product_cols art)"
  shows "fs (''prev_'' @ col) = Some (if dict_get (prev_products c) col 0 \<noteq> 0 then 1 else 0)"
proof -
  from assms(1) obtain f0 f1 canal_code prov_code f2 n dt where
    f2: "prev_block (prev_products c) (product_cols art)
           (f1(''canal_entrada_enc'' \<mapsto> real_of_int canal_code,
               ''pais_residencia_enc'' \<mapsto> (if pais_residencia c = Some ''ES'' then 1 else 0),
               ''nomprov_enc'' \<mapsto> real_of_int prov_code), 0) = (f2, n)"
    and fs: "fs = temporal_block dt
                (f2(''n_products'' \<mapsto> real_of_int n,
                    ''product_changes'' \<mapsto>
                       real_of_int (case product_changes c of Some v \<Rightarrow> v | None \<Rightarrow> 0)))"
    by (rule compute_features_Inr)
  from prev_block_flag [OF f2 assms(2)] show ?thesis
    by (simp add: fs temporal_block_def)
qed

lemma features_n_products:
  assumes "compute_features art now c = Inr fs"
  shows "fs ''n_products'' =
     Some (real (length (filter (\<lambda>col. dict_get (prev_products c) col 0 \<noteq> 0) (product_cols art))))"
proof -
  from assms(1) obtain f0 f1 canal_code prov_code f2 n dt where
    f2: "prev_block (prev_products c) (product_cols art)
           (f1(''canal_entrada_enc'' \<mapsto> real_of_int canal_code,
               ''pais_residencia_enc'' \<mapsto> (if pais_residencia c = Some ''ES'' then 1 else 0),
               ''nomprov_enc'' \<mapsto> real_of_int prov_code), 0) = (f2, n)"
    and fs: "fs = temporal_block dt
                (f2(''n_products'' \<mapsto> real_of_int n,
                    ''product_changes'' \<mapsto>
                       real_of_int (case product_changes c of Some v \<Rightarrow> v | None \<Rightarrow> 0)))"
    by (rule compute_features_Inr)
  from prev_block_count [OF f2] show ?thesis
    by (simp add: fs temporal_block_def)
qed

lemma renta_value_cases:
  "renta_value c =
     (case renta c of
        None \<Rightarrow> segment_default (segmento c)
      | Some r \<Rightarrow> if r \<le> 0 then segment_default (segmento c) else r)"
  by (auto simp: renta_value_def segment_default_def DEFAULT_RENTA_BY_SEGMENT_def
      DEFAULT_RENTA_def dict_get_def Let_def split: option.splits)

subsection \<open>Evaluation on the small artifact\<close>

lemma demo_strptime: "strptime_ymd ''2016-05-28'' = Inr (Datetime 2016 5 28)"
  by (simp add: strptime_ymd_def parse_Y_def parse_m_def parse_d_def expect_dash_def
      digit_of_def parse_two_def days_in_month_def)

lemma demo_encode_with:
  "encode_with demo_encoders name v =
     (if name \<in> set encoder_names then safe_label_encode demo_encoder v else Inl (KeyError name))"
  by (auto simp add: encode_with_def get_encoder_def demo_encoders_def encoder_names_def)

lemma demo_safe_label_encode:
  "safe_label_encode demo_encoder v = Inr (if v = ''H'' then 0 else if v = ''V'' then 1 else 2)"
  by (simp add: safe_label_encode_def transform_first_def demo_encoder_def first_item_def)

lemma demo_encoders_complete: "set encoder_names \<subseteq> fst ` set (label_encoders demo_artifact)"
  by (simp add: demo_artifact_def demo_encoders_def encoder_names_def)

lemma demo_preprocess: "preprocess demo_artifact demo_now demo_client = Inr demo_frame"
  by (simp add: demo_frame_def preprocess_def assemble_def compute_features_def demo_artifact_def
      demo_client_def numeric_block_def py_float_small DEFAULT_AGE_def DEFAULT_ANTIGUEDAD_def
      low_card_fields_def demo_encode_with encoder_names_def
      demo_safe_label_encode clean_top20_def observation_date_def demo_strptime
      temporal_block_def renta_value_def DEFAULT_RENTA_BY_SEGMENT_def dict_get_def
      DATASET_START_def)

lemma demo_in_range:
  "numeric_in_range demo_client" "float_range (product_changes demo_client)"
  "numeric_in_range (demo_client\<lparr>renta := Some 150000\<rparr>)"
  by (simp_all add: numeric_in_range_def float_range_def demo_client_def)

text \<open>An integer beyond the range of a float: \<open>float(antiguedad)\<close> raises.\<close>

lemma overflow_preprocess:
  "preprocess art now (demo_client\<lparr>antiguedad := Some (10 ^ 309)\<rparr>) = Inl OverflowError"
proof -
  have "numeric_block (demo_client\<lparr>antiguedad := Some (10 ^ 309)\<rparr>) Map.empty
          = Inl OverflowError"
    by (rule numeric_block_overflow [where n = "10 ^ 309"]) (simp_all add: FLOAT_OVERFLOW_def)
  then show ?thesis by (simp add: preprocess_def compute_features_def)
qed

section \<open>Properties of scoring and ranking\<close>

subsection \<open>The scoring loop\<close>

lemma score_products_keys:
  "score_products ms X cols ps = Inr ps' \<Longrightarrow> fst ` set ps' = fst ` set ps \<union> set cols"
proof (induction cols arbitrary: ps)
  case Nil
  then show ?case by simp
next
  case (Cons col cols)
  from Cons.prems obtain p1 where
    step: "score_products ms X cols (AList.update col p1 ps) = Inr ps'"
    by (auto split: sum.splits)
  from Cons.IH [OF step] show ?case
    by (simp add: AList.dom_update)
qed

lemma score_products_distinct:
  "score_products ms X cols ps = Inr ps' \<Longrightarrow> distinct (map fst ps) \<Longrightarrow> distinct (map fst ps')"
proof (induction cols arbitrary: ps)
  case Nil
  then show ?case by simp
next
  case (Cons col cols)
  from Cons.prems obtain p1 where
    step: "score_products ms X cols (AList.update col p1 ps) = Inr ps'"
    by (auto split: sum.splits)
  from Cons.prems(2) have "distinct (map fst (AList.update col p1 ps))"
    by (rule AList.distinct_update)
  with Cons.IH [OF step] show ?case .
qed

lemma score_products_value:
  "score_products ms X cols ps = Inr ps' \<Longrightarrow>
     map_of ps' k =
       (if k \<in> set cols
        then (case score_one ms X k of Inr p \<Rightarrow> Some p | Inl e \<Rightarrow> None)
        else map_of ps k)"
proof (induction cols arbitrary: ps)
  case Nil
  then show ?case by simp
next
  case (Cons col cols)
  from Cons.prems obtain p1 where p1: "score_one ms X col = Inr p1"
    and step: "score_products ms X cols (AList.update col p1 ps) = Inr ps'"
    by (auto split: sum.splits)
  from Cons.IH [OF step] show ?case
    by (auto simp: AList.update_conv' p1)
qed

lemma score_products_scored:
  "score_products ms X cols ps = Inr ps' \<Longrightarrow> col \<in> set cols \<Longrightarrow>
     \<exists>p. score_one ms X col = Inr p"
proof (induction cols arbitrary: ps)
  case Nil
  then show ?case by simp
next
  case (Cons a cols)
  from Cons.prems(1) obtain p1 where p1: "score_one ms X a = Inr p1"
    and step: "score_products ms X cols (AList.update a p1 ps) = Inr ps'"
    by (auto split: sum.splits)
  show ?case
  proof (cases "col = a")
    case True
    with p1 show ?thesis by simp
  next
    case False
    with Cons.prems(2) have "col \<in> set cols" by simp
    with Cons.IH [OF step] show ?thesis .
  qed
qed

lemma score_products_returns:
  "\<forall>col \<in> set cols. \<exists>p. score_one ms X col = Inr p \<Longrightarrow>
     \<exists>ps'. score_products ms X cols ps = Inr ps'"
proof (induction cols arbitrary: ps)
  case Nil
  then show ?case by simp
next
  case (Cons col cols)
  from Cons.prems obtain p1 where p1: "score_one ms X col = Inr p1" by auto
  from Cons.prems have "\<forall>col \<in> set cols. \<exists>p. score_one ms X col = Inr p" by simp
  from Cons.IH [OF this] show ?case by (simp add: p1)
qed

lemma score_one_two_class:
  "map_of ms col = Some model \<Longrightarrow> model X = Inr (prob # rest) \<Longrightarrow> 1 < length prob \<Longrightarrow>
     score_one ms X col = Inr (prob ! 1)"
  by (simp add: score_one_def first_item_def positive_class_def)

lemma score_one_single:
  "map_of ms col = Some model \<Longrightarrow> model X = Inr ([p] # rest) \<Longrightarrow> score_one ms X col = Inr p"
  by (simp add: score_one_def first_item_def positive_class_def)

lemma score_one_nonempty:
  "map_of ms col = Some model \<Longrightarrow> model X = Inr (prob # rest) \<Longrightarrow> prob \<noteq> [] \<Longrightarrow>
     \<exists>p. score_one ms X col = Inr p"
  by (cases prob) (simp_all add: score_one_def first_item_def positive_class_def)

subsection \<open>The exclusion loop\<close>

lemma zero_owned_keys:
  "fst ` set (zero_owned prev cols ps) =
     fst ` set ps \<union> {col \<in> set cols. dict_get prev col 0 = 1}"
  by (induction cols arbitrary: ps) (auto simp: AList.dom_update)

lemma zero_owned_distinct:
  "distinct (map fst ps) \<Longrightarrow> distinct (map fst (zero_owned prev cols ps))"
  by (induction cols arbitrary: ps) (simp_all add: AList.distinct_update)

lemma zero_owned_value:
  "map_of (zero_owned prev cols ps) k =
     (if k \<in> set cols \<and> dict_get prev k 0 = 1 then Some 0 else map_of ps k)"
  by (induction cols arbitrary: ps) (auto simp: AList.update_conv')

lemma dict_get_flag: "dict_get prev col 0 = (1::int) \<longleftrightarrow> prev col = Some 1"
  by (simp add: dict_get_def split: option.splits)

lemma ranking_input_Inr:
  assumes "ranking_input art X c = Inr ps"
  obtains scored where
    "score_products (models art) X (product_cols art) [] = Inr scored"
    and "ps = zero_owned (prev_products c) (product_cols art) scored"
  using assms by (auto simp: ranking_input_def split: sum.splits)

lemma ranking_input_keys:
  assumes "ranking_input art X c = Inr ps"
  shows "fst ` set ps = set (product_cols art)" and "distinct (map fst ps)"
proof -
  from assms obtain scored where
    sc: "score_products (models art) X (product_cols art) [] = Inr scored"
    and ps: "ps = zero_owned (prev_products c) (product_cols art) scored"
    by (rule ranking_input_Inr)
  from score_products_keys [OF sc] show "fst ` set ps = set (product_cols art)"
    by (auto simp: ps zero_owned_keys)
  from score_products_distinct [OF sc] show "distinct (map fst ps)"
    by (simp add: ps zero_owned_distinct)
qed

lemma ranking_input_value:
  assumes "ranking_input art X c = Inr ps" and "col \<in> set (product_cols art)"
  shows "map_of ps col =
           (if prev_products c col = Some 1 then Some 0
            else (case score_one (models art) X col of Inr p \<Rightarrow> Some p | Inl e \<Rightarrow> None))"
proof -
  from assms(1) obtain scored where
    sc: "score_products (models art) X (product_cols art) [] = Inr scored"
    and ps: "ps = zero_owned (prev_products c) (product_cols art) scored"
    by (rule ranking_input_Inr)
  show ?thesis
    using assms(2) by (simp add: ps zero_owned_value score_products_value [OF sc] dict_get_flag)
qed

lemma ranking_input_owned_zero:
  assumes "ranking_input art X c = Inr ps" and "(col, p) \<in> set ps"
    and "prev_products c col = Some 1"
  shows "p = 0"
proof -
  from assms(2) have "col \<in> fst ` set ps" by force
  then have col: "col \<in> set (product_cols art)"
    by (simp add: ranking_input_keys(1) [OF assms(1)])
  from assms(2) have "map_of ps col = Some p"
    using ranking_input_keys(2) [OF assms(1)] by simp
  with ranking_input_value [OF assms(1) col] assms(3) show ?thesis by simp
qed

subsection \<open>Sorting, slicing, rounding\<close>

lemma sorted_desc_set: "set (sorted_desc ps) = set ps"
  by (simp add: sorted_desc_def)

lemma sorted_desc_length: "length (sorted_desc ps) = length ps"
  by (simp add: sorted_desc_def)

lemma sorted_desc_distinct: "distinct (map fst ps) \<Longrightarrow> distinct (map fst (sorted_desc ps))"
  by (simp add: sorted_desc_def distinct_map)

lemma sorted_desc_sorted: "sorted_wrt (\<lambda>a b. snd b \<le> snd a) (sorted_desc ps)"
proof -
  have "sorted (map (\<lambda>x. - snd x) (sorted_desc ps))"
    unfolding sorted_desc_def by (rule sorted_sort_key)
  then show ?thesis by (simp add: sorted_map)
qed

lemma slice_to_take: "\<exists>n. slice_to k xs = take n xs \<and> (0 \<le> k \<longrightarrow> n = nat k)"
  by (auto simp: slice_to_def)

lemma slice_to_all: "int (length xs) \<le> k \<Longrightarrow> slice_to k xs = xs"
  by (auto simp: slice_to_def)

lemma round_half_even_mono: "x \<le> y \<Longrightarrow> round_half_even x \<le> round_half_even y"
proof -
  assume xy: "x \<le> y"
  then have fl: "\<lfloor>x\<rfloor> \<le> \<lfloor>y\<rfloor>" by (rule floor_mono)
  have lo: "\<lfloor>y\<rfloor> \<le> round_half_even y"
    by (simp add: round_half_even_def Let_def)
  have hi: "round_half_even x \<le> \<lfloor>x\<rfloor> + 1"
    by (simp add: round_half_even_def Let_def)
  show ?thesis
  proof (cases "\<lfloor>x\<rfloor> = \<lfloor>y\<rfloor>")
    case True
    with xy show ?thesis
      by (auto simp: round_half_even_def Let_def)
  next
    case False
    with fl have "\<lfloor>x\<rfloor> + 1 \<le> \<lfloor>y\<rfloor>" by simp
    with lo hi show ?thesis by linarith
  qed
qed

lemma py_round6_mono: "p \<le> q \<Longrightarrow> py_round6 p \<le> py_round6 q"
  unfolding py_round6_def
  by (intro divide_right_mono round_half_even_mono mult_right_mono) (simp_all add: round_half_even_mono)

lemma round_half_even_zero: "round_half_even 0 = 0"
  by (simp add: round_half_even_def)

lemma py_round6_nonneg: "0 \<le> p \<Longrightarrow> 0 \<le> py_round6 p"
  using py_round6_mono [of 0 p] by (simp add: py_round6_def round_half_even_zero)

subsection \<open>The recommendation loop\<close>

lemma build_recommendations_cols:
  "map product_col (build_recommendations names items) =
     map fst (filter (\<lambda>x. 0 < snd x) items)"
  by (induction names items rule: build_recommendations.induct) simp_all

lemma build_recommendations_probs:
  "map probability (build_recommendations names items) =
     map (\<lambda>x. py_round6 (snd x)) (filter (\<lambda>x. 0 < snd x) items)"
  by (induction names items rule: build_recommendations.induct) simp_all

lemma build_recommendations_length:
  "length (build_recommendations names items) = length (filter (\<lambda>x. 0 < snd x) items)"
  using arg_cong [OF build_recommendations_cols, of length names items] by simp

lemma predict_Inr:
  assumes "predict art now c = Inr r"
  obtains X ps where "preprocess art now c = Inr X"
    and "ranking_input art X c = Inr ps"
    and "recommendations r =
           build_recommendations (product_names art) (slice_to (top_k c) (sorted_desc ps))"
    and "n_current_products r = count_owned (prev_products c) (product_cols art)"
  using assms by (auto simp: predict_def Let_def split: sum.splits)


subsection \<open>The income feature and the assembled vector\<close>

text \<open>
  Claim C6. When the income field is absent or not positive, the stored income feature is
  \<open>log(1 + d)\<close>, with \<open>d\<close> the fixed default of the client's segment for the three known
  segment codes and the global default otherwise; for income absent and segment
  \<open>01 - TOP\<close> it is \<open>log(1 + 234340.0)\<close>; when income is present and positive the feature
  is \<open>log(1 + income)\<close>. The feature builder returns whenever the artifact holds the
  encoders it reads and the integers it converts with \<open>float\<close> are below the overflow
  bound; above it \<open>float\<close> raises \<open>OverflowError\<close> and no feature is stored.
\<close>

theorem income_feature:
  "(set encoder_names \<subseteq> fst ` set (label_encoders art) \<and> numeric_in_range c \<longrightarrow>
      (\<exists>fs. compute_features art now c = Inr fs))
   \<and> (\<forall>fs. compute_features art now c = Inr fs \<longrightarrow>
        ((renta c = None \<or> (\<exists>r. renta c = Some r \<and> r \<le> 0)) \<longrightarrow>
           fs ''log_renta'' = Some (ln (1 + segment_default (segmento c))))
        \<and> (renta c = None \<and> segmento c = Some ''01 - TOP'' \<longrightarrow>
           fs ''log_renta'' = Some (ln (1 + 234340)))
        \<and> (\<forall>r. renta c = Some r \<and> 0 < r \<longrightarrow> fs ''log_renta'' = Some (ln (1 + r))))"
proof (intro conjI allI impI)
  assume "set encoder_names \<subseteq> fst ` set (label_encoders art) \<and> numeric_in_range c"
  then show "\<exists>fs. compute_features art now c = Inr fs"
    using compute_features_returns by blast
next
  fix fs
  assume fs: "compute_features art now c = Inr fs"
    and "renta c = None \<or> (\<exists>r. renta c = Some r \<and> r \<le> 0)"
  then show "fs ''log_renta'' = Some (ln (1 + segment_default (segmento c)))"
    by (auto simp: features_log_renta [OF fs] renta_value_cases)
next
  fix fs
  assume fs: "compute_features art now c = Inr fs"
    and "renta c = None \<and> segmento c = Some ''01 - TOP''"
  then show "fs ''log_renta'' = Some (ln (1 + 234340))"
    by (simp add: features_log_renta [OF fs] renta_value_cases segment_default_def)
next
  fix fs r
  assume fs: "compute_features art now c = Inr fs" and "renta c = Some r \<and> 0 < r"
  then show "fs ''log_renta'' = Some (ln (1 + r))"
    by (simp add: features_log_renta [OF fs] renta_value_cases)
qed

theorem income_feature_witness:
  "set encoder_names \<subseteq> fst ` set (label_encoders demo_artifact)
   \<and> numeric_in_range demo_client
   \<and> numeric_in_range (demo_client\<lparr>renta := Some 150000\<rparr>)
   \<and> renta demo_client = None \<and> segmento demo_client = Some ''01 - TOP''
   \<and> (\<exists>fs. compute_features demo_artifact demo_now demo_client = Inr fs
          \<and> fs ''log_renta'' = Some (ln (1 + 234340)))
   \<and> renta (demo_client\<lparr>renta := Some 150000\<rparr>) = Some 150000 \<and> (0::real) < 150000
   \<and> (\<exists>fs. compute_features demo_artifact demo_now (demo_client\<lparr>renta := Some 150000\<rparr>) = Inr fs
          \<and> fs ''log_renta'' = Some (ln (1 + 150000)))"
  using income_feature [where art = demo_artifact and now = demo_now and c = demo_client]
        income_feature [where art = demo_artifact and now = demo_now
          and c = "demo_client\<lparr>renta := Some 150000\<rparr>"]
        demo_encoders_complete demo_in_range
  by (auto simp: demo_client_def)

lemma preprocess_Inr:
  assumes "preprocess art now c = Inr X"
  obtains fs where "compute_features art now c = Inr fs"
    and "X = assemble (feature_cols art) fs"
  using assms by (auto simp: preprocess_def split: sum.splits)

lemma preprocess_returns:
  assumes "set encoder_names \<subseteq> fst ` set (label_encoders art)" and "numeric_in_range c"
  shows "\<exists>X. preprocess art now c = Inr X"
proof -
  obtain fs where "compute_features art now c = Inr fs"
    using compute_features_returns [OF assms] by blast
  then show ?thesis by (simp add: preprocess_def)
qed

text \<open>
  Claim C7. For every client record and artifact, the assembled feature vector has
  exactly \<open>len(feature_cols)\<close> values, ordered as \<open>feature_cols\<close>; each position holds the
  value computed for that feature name, every name of \<open>feature_cols\<close> that the feature
  builder did not compute holds 0, and computed features whose names are not in
  \<open>feature_cols\<close> do not appear. The vector exists whenever the artifact holds the
  encoders the feature builder reads and the optional integers of the record are below the
  overflow bound of \<open>float\<close>; above it \<open>float\<close> raises \<open>OverflowError\<close> and there is no
  vector.
\<close>

theorem assembled_feature_vector:
  "(set encoder_names \<subseteq> fst ` set (label_encoders art) \<and> numeric_in_range c
      \<and> float_range (product_changes c) \<longrightarrow>
      (\<exists>X. preprocess art now c = Inr X))
   \<and> (\<forall>X. preprocess art now c = Inr X \<longrightarrow>
        (\<exists>fs. compute_features art now c = Inr fs
           \<and> dom fs = computed_names art
           \<and> length X = length (feature_cols art)
           \<and> map fst X = feature_cols art
           \<and> (\<forall>i < length (feature_cols art).
                 (\<forall>v. fs (feature_cols art ! i) = Some v \<longrightarrow> snd (X ! i) = v)
               \<and> (feature_cols art ! i \<notin> computed_names art \<longrightarrow> snd (X ! i) = 0))
           \<and> (\<forall>name \<in> computed_names art.
                 name \<notin> set (feature_cols art) \<longrightarrow> name \<notin> fst ` set X)))"
proof (intro conjI allI impI)
  assume "set encoder_names \<subseteq> fst ` set (label_encoders art) \<and> numeric_in_range c
      \<and> float_range (product_changes c)"
  then show "\<exists>X. preprocess art now c = Inr X" using preprocess_returns by blast
next
  fix X
  assume "preprocess art now c = Inr X"
  then obtain fs where fs: "compute_features art now c = Inr fs"
    and X: "X = assemble (feature_cols art) fs"
    by (rule preprocess_Inr)
  have dom: "dom fs = computed_names art" by (rule features_dom [OF fs])
  have names: "map fst X = feature_cols art"
    by (simp add: X assemble_def comp_def)
  have len: "length X = length (feature_cols art)"
    by (simp add: X assemble_def)
  have vals: "\<forall>i < length (feature_cols art).
                 (\<forall>v. fs (feature_cols art ! i) = Some v \<longrightarrow> snd (X ! i) = v)
               \<and> (feature_cols art ! i \<notin> computed_names art \<longrightarrow> snd (X ! i) = 0)"
  proof (intro allI impI conjI)
    fix i v
    assume "i < length (feature_cols art)" and "fs (feature_cols art ! i) = Some v"
    then show "snd (X ! i) = v" by (simp add: X assemble_def dict_get_def)
  next
    fix i
    assume i: "i < length (feature_cols art)"
      and "feature_cols art ! i \<notin> computed_names art"
    then have "fs (feature_cols art ! i) = None" using dom by blast
    with i show "snd (X ! i) = 0" by (simp add: X assemble_def dict_get_def)
  qed
  have absent: "\<forall>name \<in> computed_names art.
      name \<notin> set (feature_cols art) \<longrightarrow> name \<notin> fst ` set X"
    using names by (metis set_map)
  from fs dom len names vals absent
  show "\<exists>fs. compute_features art now c = Inr fs
           \<and> dom fs = computed_names art
           \<and> length X = length (feature_cols art)
           \<and> map fst X = feature_cols art
           \<and> (\<forall>i < length (feature_cols art).
                 (\<forall>v. fs (feature_cols art ! i) = Some v \<longrightarrow> snd (X ! i) = v)
               \<and> (feature_cols art ! i \<notin> computed_names art \<longrightarrow> snd (X ! i) = 0))
           \<and> (\<forall>name \<in> computed_names art.
                 name \<notin> set (feature_cols art) \<longrightarrow> name \<notin> fst ` set X)"
    by blast
qed

theorem assembled_feature_vector_witness:
  "set encoder_names \<subseteq> fst ` set (label_encoders demo_artifact)
   \<and> numeric_in_range demo_client \<and> float_range (product_changes demo_client)
   \<and> preprocess demo_artifact demo_now demo_client = Inr demo_frame
   \<and> demo_frame = [(''age'', 35), (''log_renta'', ln 234341), (''month'', 5), (''spare'', 0)]
   \<and> length demo_frame = length (feature_cols demo_artifact)
   \<and> (3::nat) < length (feature_cols demo_artifact)
   \<and> feature_cols demo_artifact ! 3 \<notin> computed_names demo_artifact
   \<and> ''n_products'' \<in> computed_names demo_artifact
   \<and> ''n_products'' \<notin> set (feature_cols demo_artifact)"
  using assembled_feature_vector [where art = demo_artifact and now = demo_now
          and c = demo_client]
        demo_encoders_complete demo_preprocess demo_in_range
  by (simp add: demo_artifact_def demo_frame_def computed_names_def fixed_feature_names_def)


subsection \<open>Evaluation of \<open>predict\<close> on the small artifact\<close>

lemma demo_round6:
  "py_round6 (1 / 4) = 1 / 4" "py_round6 (1 / 20) = 1 / 20" "py_round6 (1 / 4194304) = 0"
  by (simp_all add: py_round6_def round_half_even_def)

lemma demo_ranking_input:
  "ranking_input demo_artifact demo_frame demo_client =
     Inr [(''aho'', 0), (''cta'', 1 / 4), (''tjc'', 1 / 20), (''fon'', 1 / 4194304)]"
  by (simp add: ranking_input_def demo_artifact_def demo_frame_def score_one_def
      const_classifier_def month_classifier_def first_item_def positive_class_def
      demo_client_def dict_get_def)

lemma demo_fields:
  "top_k demo_client = 4"
  "prev_products demo_client = [''aho'' \<mapsto> 1, ''cta'' \<mapsto> 2]"
  "product_cols demo_artifact = [''aho'', ''cta'', ''tjc'', ''fon'']"
  "product_names demo_artifact = [(''aho'', ''Savings'')]"
  by (simp_all add: demo_artifact_def demo_client_def)

lemma demo_predict: "predict demo_artifact demo_now demo_client = Inr demo_prediction"
  by (simp add: predict_def demo_preprocess demo_ranking_input sorted_desc_def slice_to_def
      demo_round6 count_owned_def demo_prediction_def demo_fields dict_get_def)

subsection \<open>Where a recommendation comes from\<close>

lemma build_recommendations_source:
  "rec \<in> set (build_recommendations names items) \<Longrightarrow>
     \<exists>p. (product_col rec, p) \<in> set items \<and> 0 < p \<and> probability rec = py_round6 p"
  by (induction names items rule: build_recommendations.induct) (auto split: if_splits)

lemma slice_to_subset: "set (slice_to k xs) \<subseteq> set xs"
  using slice_to_take [of k xs] by (auto dest: in_set_takeD)

lemma recommendation_source:
  assumes "predict art now c = Inr r" and "rec \<in> set (recommendations r)"
  shows "\<exists>X ps p. preprocess art now c = Inr X \<and> ranking_input art X c = Inr ps
           \<and> (product_col rec, p) \<in> set ps \<and> 0 < p \<and> probability rec = py_round6 p"
proof -
  from assms(1) obtain X ps where X: "preprocess art now c = Inr X"
    and ps: "ranking_input art X c = Inr ps"
    and recs: "recommendations r =
           build_recommendations (product_names art) (slice_to (top_k c) (sorted_desc ps))"
    by (rule predict_Inr)
  from assms(2) obtain p where
    "(product_col rec, p) \<in> set (slice_to (top_k c) (sorted_desc ps))"
    and p: "0 < p" "probability rec = py_round6 p"
    unfolding recs using build_recommendations_source by blast
  then have "(product_col rec, p) \<in> set ps"
    using slice_to_subset [of "top_k c" "sorted_desc ps"] by (auto simp: sorted_desc_set)
  with X ps p show ?thesis by blast
qed

lemma recommendation_scored:
  assumes "predict art now c = Inr r" and "rec \<in> set (recommendations r)"
  shows "\<exists>X p. preprocess art now c = Inr X
           \<and> product_col rec \<in> set (product_cols art)
           \<and> prev_products c (product_col rec) \<noteq> Some 1
           \<and> score_one (models art) X (product_col rec) = Inr p
           \<and> 0 < p \<and> probability rec = py_round6 p"
proof -
  from recommendation_source [OF assms] obtain X ps p where
    X: "preprocess art now c = Inr X" and ps: "ranking_input art X c = Inr ps"
    and entry: "(product_col rec, p) \<in> set ps" and p: "0 < p" "probability rec = py_round6 p"
    by blast
  from entry have "product_col rec \<in> fst ` set ps" by force
  then have col: "product_col rec \<in> set (product_cols art)"
    by (simp add: ranking_input_keys(1) [OF ps])
  have free: "prev_products c (product_col rec) \<noteq> Some 1"
  proof
    assume "prev_products c (product_col rec) = Some 1"
    from ranking_input_owned_zero [OF ps entry this] p(1) show False by simp
  qed
  from entry have "map_of ps (product_col rec) = Some p"
    using ranking_input_keys(2) [OF ps] by simp
  with ranking_input_value [OF ps col] free
  have "score_one (models art) X (product_col rec) = Inr p"
    by (simp split: sum.splits)
  with X col free p show ?thesis by blast
qed

text \<open>
  Claim C1. For every client request, every product whose ownership flag equals 1 has
  its probability forced to exactly 0 before ranking, and no such product appears in the
  returned list, whatever probability the classifier produced for it.
\<close>

theorem owned_never_recommended:
  "(\<forall>X ps. ranking_input art X c = Inr ps \<longrightarrow>
      (\<forall>col \<in> set (product_cols art). prev_products c col = Some 1 \<longrightarrow>
         map_of ps col = Some 0 \<and> (\<forall>p. (col, p) \<in> set ps \<longrightarrow> p = 0)))
   \<and> (\<forall>r. predict art now c = Inr r \<longrightarrow>
        (\<forall>rec \<in> set (recommendations r). prev_products c (product_col rec) \<noteq> Some 1))"
proof (intro conjI allI impI ballI)
  fix X ps col
  assume ps: "ranking_input art X c = Inr ps" and col: "col \<in> set (product_cols art)"
    and own: "prev_products c col = Some 1"
  from ranking_input_value [OF ps col] own show "map_of ps col = Some 0" by simp
next
  fix X ps col p
  assume "ranking_input art X c = Inr ps" and "prev_products c col = Some 1"
    and "(col, p) \<in> set ps"
  then show "p = 0" using ranking_input_owned_zero by blast
next
  fix r rec
  assume r: "predict art now c = Inr r" and rec: "rec \<in> set (recommendations r)"
  from recommendation_source [OF r rec] obtain X ps p where
    ps: "ranking_input art X c = Inr ps" and p: "(product_col rec, p) \<in> set ps" "0 < p"
    by blast
  show "prev_products c (product_col rec) \<noteq> Some 1"
  proof
    assume "prev_products c (product_col rec) = Some 1"
    from ranking_input_owned_zero [OF ps p(1) this] p(2) show False by simp
  qed
qed

theorem owned_never_recommended_witness:
  "ranking_input demo_artifact demo_frame demo_client =
     Inr [(''aho'', 0), (''cta'', 1 / 4), (''tjc'', 1 / 20), (''fon'', 1 / 4194304)]
   \<and> ''aho'' \<in> set (product_cols demo_artifact)
   \<and> prev_products demo_client ''aho'' = Some 1
   \<and> score_one (models demo_artifact) demo_frame ''aho'' = Inr (1 / 2)
   \<and> predict demo_artifact demo_now demo_client = Inr demo_prediction
   \<and> ''aho'' \<notin> product_col ` set (recommendations demo_prediction)"
  using owned_never_recommended [of demo_artifact demo_client demo_now]
        demo_ranking_input demo_predict
  by (simp add: demo_artifact_def demo_client_def demo_prediction_def score_one_def
      const_classifier_def first_item_def positive_class_def)


subsection \<open>Length and order of the recommendation list\<close>

lemma recommendations_length_le_k:
  assumes "predict art now c = Inr r" and "0 \<le> top_k c"
  shows "int (length (recommendations r)) \<le> top_k c"
proof -
  from assms(1) obtain X ps where
    recs: "recommendations r =
           build_recommendations (product_names art) (slice_to (top_k c) (sorted_desc ps))"
    by (rule predict_Inr)
  have "length (recommendations r) \<le> length (slice_to (top_k c) (sorted_desc ps))"
    by (simp add: recs build_recommendations_length)
  also have "\<dots> \<le> nat (top_k c)"
    using assms(2) by (simp add: slice_to_def)
  finally show ?thesis using assms(2) by linarith
qed

lemma recommendations_cols_distinct:
  assumes "predict art now c = Inr r"
  shows "distinct (map product_col (recommendations r))"
proof -
  from assms(1) obtain X ps where ps: "ranking_input art X c = Inr ps"
    and recs: "recommendations r =
           build_recommendations (product_names art) (slice_to (top_k c) (sorted_desc ps))"
    by (rule predict_Inr)
  obtain n where n: "slice_to (top_k c) (sorted_desc ps) = take n (sorted_desc ps)"
    using slice_to_take by blast
  have "distinct (map fst (sorted_desc ps))"
    by (rule sorted_desc_distinct [OF ranking_input_keys(2) [OF ps]])
  then have "distinct (map fst (take n (sorted_desc ps)))"
    by (simp add: take_map [symmetric])
  then show ?thesis
    by (simp add: recs n build_recommendations_cols distinct_map_filter)
qed

lemma recommendations_cols_unowned:
  assumes "predict art now c = Inr r"
  shows "set (map product_col (recommendations r))
           \<subseteq> set (filter (\<lambda>col. dict_get (prev_products c) col 0 \<noteq> 1) (product_cols art))"
proof
  fix col
  assume "col \<in> set (map product_col (recommendations r))"
  then obtain rec where rec: "rec \<in> set (recommendations r)" and col: "col = product_col rec"
    by auto
  from recommendation_source [OF assms rec] obtain X ps p where
    ps: "ranking_input art X c = Inr ps" and p: "(col, p) \<in> set ps" "0 < p"
    unfolding col by blast
  from p(1) have "col \<in> fst ` set ps" by force
  then have in_cols: "col \<in> set (product_cols art)"
    by (simp add: ranking_input_keys(1) [OF ps])
  have "prev_products c col \<noteq> Some 1"
  proof
    assume "prev_products c col = Some 1"
    from ranking_input_owned_zero [OF ps p(1) this] p(2) show False by simp
  qed
  with in_cols show "col \<in> set (filter (\<lambda>col. dict_get (prev_products c) col 0 \<noteq> 1)
      (product_cols art))"
    by (simp add: dict_get_flag)
qed

lemma recommendations_length_le_unowned:
  assumes "predict art now c = Inr r"
  shows "int (length (recommendations r))
           \<le> int (length (product_cols art)) - n_current_products r"
proof -
  let ?own = "\<lambda>col. dict_get (prev_products c) col 0 = 1"
  let ?free = "filter (\<lambda>col. \<not> ?own col) (product_cols art)"
  from assms obtain X ps where
    n: "n_current_products r = count_owned (prev_products c) (product_cols art)"
    by (rule predict_Inr)
  have "length (recommendations r) = card (set (map product_col (recommendations r)))"
    using distinct_card [OF recommendations_cols_distinct [OF assms]] by simp
  also have "\<dots> \<le> card (set ?free)"
    by (rule card_mono [OF _ recommendations_cols_unowned [OF assms]]) simp
  also have "\<dots> \<le> length ?free" by (rule card_length)
  finally have "length (recommendations r) \<le> length ?free" .
  moreover have "length (filter ?own (product_cols art)) + length ?free
      = length (product_cols art)"
    by (rule sum_length_filter_compl)
  ultimately show ?thesis
    unfolding n count_owned_def by linarith
qed

lemma recommendations_descending:
  assumes "predict art now c = Inr r"
  shows "sorted_wrt (\<lambda>a b. b \<le> a) (map probability (recommendations r))"
proof -
  from assms(1) obtain X ps where
    recs: "recommendations r =
           build_recommendations (product_names art) (slice_to (top_k c) (sorted_desc ps))"
    by (rule predict_Inr)
  obtain n where n: "slice_to (top_k c) (sorted_desc ps) = take n (sorted_desc ps)"
    using slice_to_take by blast
  have "sorted_wrt (\<lambda>a b. snd b \<le> snd a) (take n (sorted_desc ps))"
    by (rule sorted_wrt_take [OF sorted_desc_sorted])
  then have "sorted_wrt (\<lambda>a b. snd b \<le> snd a)
      (filter (\<lambda>x. 0 < snd x) (take n (sorted_desc ps)))"
    by (rule sorted_wrt_filter)
  then have "sorted_wrt (\<lambda>a b. py_round6 (snd b) \<le> py_round6 (snd a))
      (filter (\<lambda>x. 0 < snd x) (take n (sorted_desc ps)))"
    by (rule sorted_wrt_mono_rel [rotated]) (rule py_round6_mono)
  then show ?thesis
    by (simp add: recs n build_recommendations_probs sorted_wrt_map)
qed

text \<open>
  Claim C2, as amended. For every client request with K in [1, N] (N the number of
  product columns), the returned list has length at most K and at most N minus the
  number of owned products, and its probabilities are non-increasing. Every returned
  probability is the six-digit rounding of the positive-class probability that the
  classifier of that product gave for the client's feature vector, and that probability
  is strictly greater than 0; so the returned value is at least 0, and it need not be
  strictly greater than 0.
\<close>

theorem ranking_bounds:
  assumes "predict art now c = Inr r"
    and "1 \<le> top_k c" and "top_k c \<le> int (length (product_cols art))"
  shows "int (length (recommendations r)) \<le> top_k c
    \<and> int (length (recommendations r)) \<le> int (length (product_cols art)) - n_current_products r
    \<and> sorted_wrt (\<lambda>a b. b \<le> a) (map probability (recommendations r))
    \<and> (\<forall>rec \<in> set (recommendations r).
          0 \<le> probability rec
        \<and> (\<exists>X p. preprocess art now c = Inr X
               \<and> product_col rec \<in> set (product_cols art)
               \<and> score_one (models art) X (product_col rec) = Inr p
               \<and> 0 < p \<and> probability rec = py_round6 p))"
proof (intro conjI ballI)
  show "int (length (recommendations r)) \<le> top_k c"
    using recommendations_length_le_k [OF assms(1)] assms(2) by simp
  show "int (length (recommendations r)) \<le> int (length (product_cols art)) - n_current_products r"
    by (rule recommendations_length_le_unowned [OF assms(1)])
  show "sorted_wrt (\<lambda>a b. b \<le> a) (map probability (recommendations r))"
    by (rule recommendations_descending [OF assms(1)])
next
  fix rec
  assume rec: "rec \<in> set (recommendations r)"
  from recommendation_scored [OF assms(1) rec] obtain X p where
    X: "preprocess art now c = Inr X"
    and col: "product_col rec \<in> set (product_cols art)"
    and sc: "score_one (models art) X (product_col rec) = Inr p"
    and p: "0 < p" "probability rec = py_round6 p" by blast
  from p show "0 \<le> probability rec" using py_round6_nonneg [of p] by simp
  from X col sc p show "\<exists>X p. preprocess art now c = Inr X
               \<and> product_col rec \<in> set (product_cols art)
               \<and> score_one (models art) X (product_col rec) = Inr p
               \<and> 0 < p \<and> probability rec = py_round6 p" by blast
qed

theorem ranking_bounds_witness:
  "predict demo_artifact demo_now demo_client = Inr demo_prediction
   \<and> 1 \<le> top_k demo_client \<and> top_k demo_client \<le> int (length (product_cols demo_artifact))
   \<and> int (length (recommendations demo_prediction)) \<le> top_k demo_client
   \<and> int (length (recommendations demo_prediction))
        \<le> int (length (product_cols demo_artifact)) - n_current_products demo_prediction
   \<and> map probability (recommendations demo_prediction) = [1 / 4, 1 / 20, 0]
   \<and> map product_col (recommendations demo_prediction) = [''cta'', ''tjc'', ''fon'']
   \<and> preprocess demo_artifact demo_now demo_client = Inr demo_frame
   \<and> score_one (models demo_artifact) demo_frame ''cta'' = Inr (1 / 4)
   \<and> py_round6 (1 / 4) = 1 / 4"
  using ranking_bounds [OF demo_predict] demo_predict demo_preprocess
  by (simp add: demo_fields demo_prediction_def demo_round6 demo_artifact_def score_one_def
      const_classifier_def first_item_def positive_class_def)

text \<open>
  The claim as first stated fails: the product \<open>fon\<close> has classifier probability
  \<open>2\<^sup>-\<^sup>2\<^sup>2\<close>, which passes the test \<open>prob > 0\<close> and is returned rounded to six digits, 0.
\<close>

theorem returned_probability_zero_counterexample:
  "predict demo_artifact demo_now demo_client = Inr demo_prediction
   \<and> 1 \<le> top_k demo_client \<and> top_k demo_client \<le> int (length (product_cols demo_artifact))
   \<and> score_one (models demo_artifact) demo_frame ''fon'' = Inr (1 / 4194304)
   \<and> product_col (recommendations demo_prediction ! 2) = ''fon''
   \<and> \<not> 0 < probability (recommendations demo_prediction ! 2)"
  using demo_predict
  by (simp add: demo_fields demo_prediction_def demo_artifact_def score_one_def
      const_classifier_def first_item_def positive_class_def)


subsection \<open>The owned-product count\<close>

lemma renta_value_top_k: "renta_value (c\<lparr>top_k := k\<rparr>) = renta_value c"
  by (simp add: renta_value_def)

lemma numeric_block_top_k: "numeric_block (c\<lparr>top_k := k\<rparr>) f = numeric_block c f"
  by (simp add: numeric_block_def renta_value_top_k cong: sum.case_cong)

lemma low_card_fields_top_k: "low_card_fields (c\<lparr>top_k := k\<rparr>) = low_card_fields c"
  by (simp add: low_card_fields_def)

lemma observation_date_top_k:
  "observation_date now (c\<lparr>top_k := k\<rparr>) = observation_date now c"
  by (simp add: observation_date_def)

lemma compute_features_top_k:
  "compute_features art now (c\<lparr>top_k := k\<rparr>) = compute_features art now c"
  unfolding compute_features_def numeric_block_top_k low_card_fields_top_k observation_date_top_k
  by (simp cong: sum.case_cong)

lemma preprocess_top_k: "preprocess art now (c\<lparr>top_k := k\<rparr>) = preprocess art now c"
  by (simp add: preprocess_def compute_features_top_k)

lemma ranking_input_top_k: "ranking_input art X (c\<lparr>top_k := k\<rparr>) = ranking_input art X c"
  by (simp add: ranking_input_def cong: sum.case_cong)

lemma count_owned_flags:
  "count_owned prev cols = int (length (filter (\<lambda>col. prev col = Some 1) cols))"
  by (simp add: count_owned_def dict_get_flag)

text \<open>
  Claim C3. For every client request, the returned \<open>n_current_products\<close> equals the
  number of product identifiers in \<open>product_cols\<close> whose ownership flag in the request
  equals 1; it does not depend on the requested K, nor on the classifiers and so on which
  recommendations survive filtering.
\<close>

theorem owned_count:
  assumes "predict art now c = Inr r"
  shows "n_current_products r
           = int (length (filter (\<lambda>col. prev_products c col = Some 1) (product_cols art)))
    \<and> (\<forall>k. \<exists>r'. predict art now (c\<lparr>top_k := k\<rparr>) = Inr r'
            \<and> n_current_products r' = n_current_products r)
    \<and> (\<forall>art' now' k r'. product_cols art' = product_cols art
            \<and> predict art' now' (c\<lparr>top_k := k\<rparr>) = Inr r'
          \<longrightarrow> n_current_products r' = n_current_products r)"
proof (intro conjI allI impI)
  from assms obtain X ps where X: "preprocess art now c = Inr X"
    and ps: "ranking_input art X c = Inr ps"
    and n: "n_current_products r = count_owned (prev_products c) (product_cols art)"
    by (rule predict_Inr)
  show count: "n_current_products r
           = int (length (filter (\<lambda>col. prev_products c col = Some 1) (product_cols art)))"
    by (simp add: n count_owned_flags)
  show "\<exists>r'. predict art now (c\<lparr>top_k := k\<rparr>) = Inr r'
            \<and> n_current_products r' = n_current_products r" for k
    by (simp add: predict_def preprocess_top_k ranking_input_top_k X ps n Let_def)
  show "n_current_products r' = n_current_products r"
    if h: "product_cols art' = product_cols art
            \<and> predict art' now' (c\<lparr>top_k := k\<rparr>) = Inr r'" for art' now' k r'
  proof -
    from h have "predict art' now' (c\<lparr>top_k := k\<rparr>) = Inr r'" by simp
    then have "n_current_products r'
        = count_owned (prev_products (c\<lparr>top_k := k\<rparr>)) (product_cols art')"
      by (rule predict_Inr)
    with h show ?thesis by (simp add: n)
  qed
qed

theorem owned_count_witness:
  "predict demo_artifact demo_now demo_client = Inr demo_prediction
   \<and> n_current_products demo_prediction = 1
   \<and> filter (\<lambda>col. prev_products demo_client col = Some 1) (product_cols demo_artifact)
        = [''aho'']
   \<and> (\<exists>r'. predict demo_artifact demo_now (demo_client\<lparr>top_k := 1\<rparr>) = Inr r'
          \<and> n_current_products r' = 1)"
  using owned_count [OF demo_predict] demo_predict
  by (simp add: demo_fields demo_prediction_def)

subsection \<open>The scoring step\<close>

text \<open>
  Claim C8. For every product in \<open>product_cols\<close>, the scoring step takes the value at
  index 1 of the classifier's class-probability output when that output has more than
  one entry, and the single value itself when it has exactly one entry, without raising
  in the one-entry case; the resulting probability map has exactly the identifiers of
  \<open>product_cols\<close> as keys.
\<close>

theorem scoring_positive_class:
  assumes "\<forall>col \<in> set (product_cols art). \<exists>model prob rest.
             map_of (models art) col = Some model \<and> model X = Inr (prob # rest) \<and> prob \<noteq> []"
  shows "\<exists>ps. score_products (models art) X (product_cols art) [] = Inr ps
     \<and> fst ` set ps = set (product_cols art) \<and> distinct (map fst ps)
     \<and> (\<forall>col \<in> set (product_cols art). \<forall>model prob rest.
           map_of (models art) col = Some model \<and> model X = Inr (prob # rest) \<longrightarrow>
             (1 < length prob \<longrightarrow> map_of ps col = Some (prob ! 1))
           \<and> (\<forall>p. prob = [p] \<longrightarrow> map_of ps col = Some p))"
proof -
  have "\<forall>col \<in> set (product_cols art). \<exists>p. score_one (models art) X col = Inr p"
    using assms score_one_nonempty by blast
  then obtain ps where ps: "score_products (models art) X (product_cols art) [] = Inr ps"
    using score_products_returns by blast
  have keys: "fst ` set ps = set (product_cols art)"
    using score_products_keys [OF ps] by simp
  have dist: "distinct (map fst ps)"
    using score_products_distinct [OF ps] by simp
  have vals: "\<forall>col \<in> set (product_cols art). \<forall>model prob rest.
           map_of (models art) col = Some model \<and> model X = Inr (prob # rest) \<longrightarrow>
             (1 < length prob \<longrightarrow> map_of ps col = Some (prob ! 1))
           \<and> (\<forall>p. prob = [p] \<longrightarrow> map_of ps col = Some p)"
  proof (intro ballI allI impI conjI)
    fix col model prob rest
    assume col: "col \<in> set (product_cols art)"
      and m: "map_of (models art) col = Some model \<and> model X = Inr (prob # rest)"
      and two: "1 < length prob"
    from m two have "score_one (models art) X col = Inr (prob ! 1)"
      by (simp add: score_one_two_class)
    with col show "map_of ps col = Some (prob ! 1)"
      by (simp add: score_products_value [OF ps])
  next
    fix col model prob rest p
    assume col: "col \<in> set (product_cols art)"
      and m: "map_of (models art) col = Some model \<and> model X = Inr (prob # rest)"
      and one: "prob = [p]"
    from m one have "score_one (models art) X col = Inr p"
      by (simp add: score_one_single)
    with col show "map_of ps col = Some p"
      by (simp add: score_products_value [OF ps])
  qed
  from ps keys dist vals show ?thesis by blast
qed

lemma single_artifact_outputs:
  "\<forall>col \<in> set (product_cols single_artifact). \<exists>model prob rest.
     map_of (models single_artifact) col = Some model
     \<and> model demo_frame = Inr (prob # rest) \<and> prob \<noteq> []"
  by (simp add: single_artifact_def single_classifier_def const_classifier_def)

theorem scoring_positive_class_witness:
  "product_cols single_artifact = [''aho'', ''cta'']
   \<and> map_of (models single_artifact) ''aho'' = Some (single_classifier (1 / 3))
   \<and> single_classifier (1 / 3) demo_frame = Inr [[1 / 3]]
   \<and> map_of (models single_artifact) ''cta'' = Some (const_classifier (1 / 4))
   \<and> const_classifier (1 / 4) demo_frame = Inr [[3 / 4, 1 / 4]]
   \<and> score_products (models single_artifact) demo_frame (product_cols single_artifact) []
        = Inr [(''aho'', 1 / 3), (''cta'', 1 / 4)]"
  using scoring_positive_class [OF single_artifact_outputs]
  by (simp add: single_artifact_def single_classifier_def const_classifier_def score_one_def
      first_item_def positive_class_def)


subsection \<open>Ownership flags other than 0 and 1\<close>

lemma ranking_input_length:
  assumes "ranking_input art X c = Inr ps"
  shows "length ps \<le> length (product_cols art)"
proof -
  have "length ps = length (map fst ps)" by simp
  also have "\<dots> = card (set (map fst ps))"
    using distinct_card [OF ranking_input_keys(2) [OF assms]] by simp
  also have "\<dots> = card (set (product_cols art))"
    using ranking_input_keys(1) [OF assms] by simp
  also have "\<dots> \<le> length (product_cols art)" by (rule card_length)
  finally show ?thesis .
qed

lemma recommended_when_all_taken:
  assumes r: "predict art now c = Inr r" and X: "preprocess art now c = Inr X"
    and ps: "ranking_input art X c = Inr ps" and entry: "(col, p) \<in> set ps" and pos: "0 < p"
    and k: "int (length (product_cols art)) \<le> top_k c"
  shows "col \<in> product_col ` set (recommendations r)"
proof -
  from r obtain X' ps' where X': "preprocess art now c = Inr X'"
    and ps': "ranking_input art X' c = Inr ps'"
    and recs: "recommendations r =
           build_recommendations (product_names art) (slice_to (top_k c) (sorted_desc ps'))"
    by (rule predict_Inr)
  from X X' have "X' = X" by simp
  with ps ps' have eq: "ps' = ps" by simp
  have "int (length (sorted_desc ps)) \<le> top_k c"
    using ranking_input_length [OF ps] k by (simp add: sorted_desc_length)
  then have all: "slice_to (top_k c) (sorted_desc ps) = sorted_desc ps"
    by (rule slice_to_all)
  from entry pos have "(col, p) \<in> set (filter (\<lambda>x. 0 < snd x) (sorted_desc ps))"
    by (simp add: sorted_desc_set)
  then have "col \<in> set (map fst (filter (\<lambda>x. 0 < snd x) (sorted_desc ps)))"
    by force
  then have "col \<in> set (map product_col (recommendations r))"
    by (simp only: recs eq all build_recommendations_cols)
  then show ?thesis by simp
qed

text \<open>
  Claim C10. If the ownership mapping holds a flag other than 0 or 1 (for example 2) for
  a product of \<open>product_cols\<close>, the product counts as owned in the feature vector (its
  \<open>prev_\<close> feature is 1 and it is counted in the \<open>n_products\<close> feature), yet its
  probability is not zeroed before ranking, so it can still be recommended, and it is not
  counted in the returned \<open>n_current_products\<close>: exclusion and count test the flag for
  equality with 1, the feature block tests truthiness.
\<close>

theorem flag_other_than_0_or_1:
  assumes "col \<in> set (product_cols art)" and "prev_products c col = Some v"
    and "v \<noteq> 0" and "v \<noteq> 1"
  shows "(\<forall>fs. compute_features art now c = Inr fs \<longrightarrow>
            fs (''prev_'' @ col) = Some 1
          \<and> fs ''n_products'' = Some (real (length
                (filter (\<lambda>k. dict_get (prev_products c) k 0 \<noteq> 0) (product_cols art))))
          \<and> col \<in> set (filter (\<lambda>k. dict_get (prev_products c) k 0 \<noteq> 0) (product_cols art)))
    \<and> (\<forall>X ps. ranking_input art X c = Inr ps \<longrightarrow>
          (\<exists>p. score_one (models art) X col = Inr p \<and> map_of ps col = Some p))
    \<and> (\<forall>r X p. predict art now c = Inr r \<and> preprocess art now c = Inr X
            \<and> score_one (models art) X col = Inr p \<and> 0 < p
            \<and> int (length (product_cols art)) \<le> top_k c
          \<longrightarrow> col \<in> product_col ` set (recommendations r))
    \<and> (\<forall>r. predict art now c = Inr r \<longrightarrow>
          n_current_products r
            = int (length (filter (\<lambda>k. prev_products c k = Some 1) (product_cols art)))
          \<and> col \<notin> set (filter (\<lambda>k. prev_products c k = Some 1) (product_cols art)))"
proof (intro conjI allI impI)
  have truthy: "dict_get (prev_products c) col 0 \<noteq> 0"
    using assms(2,3) by (simp add: dict_get_def)
  have not_one: "prev_products c col \<noteq> Some 1"
    using assms(2,4) by simp
  {
    fix fs
    assume fs: "compute_features art now c = Inr fs"
    show "fs (''prev_'' @ col) = Some 1"
      using features_prev_flag [OF fs assms(1)] truthy by simp
    show "fs ''n_products'' = Some (real (length
                (filter (\<lambda>k. dict_get (prev_products c) k 0 \<noteq> 0) (product_cols art))))"
      by (rule features_n_products [OF fs])
    show "col \<in> set (filter (\<lambda>k. dict_get (prev_products c) k 0 \<noteq> 0) (product_cols art))"
      using assms(1) truthy by simp
  }
  {
    fix X ps
    assume ps: "ranking_input art X c = Inr ps"
    from ps obtain scored where
      "score_products (models art) X (product_cols art) [] = Inr scored"
      by (rule ranking_input_Inr)
    from score_products_scored [OF this assms(1)] obtain p where
      p: "score_one (models art) X col = Inr p" by blast
    with ranking_input_value [OF ps assms(1)] not_one
    show "\<exists>p. score_one (models art) X col = Inr p \<and> map_of ps col = Some p"
      by simp
  }
  {
    fix r X p
    assume h: "predict art now c = Inr r \<and> preprocess art now c = Inr X
            \<and> score_one (models art) X col = Inr p \<and> 0 < p
            \<and> int (length (product_cols art)) \<le> top_k c"
    then obtain X' ps where X': "preprocess art now c = Inr X'"
      and ps: "ranking_input art X' c = Inr ps"
      by (auto elim: predict_Inr)
    from h X' have XX: "X' = X" by simp
    from ranking_input_value [OF ps assms(1)] not_one h
    have "map_of ps col = Some p" by (simp add: XX)
    then have "(col, p) \<in> set ps" by (rule map_of_SomeD)
    with h ps show "col \<in> product_col ` set (recommendations r)"
      using recommended_when_all_taken [of art now c r X ps col p] by (simp add: XX)
  }
  {
    fix r
    assume r: "predict art now c = Inr r"
    then have "n_current_products r = count_owned (prev_products c) (product_cols art)"
      by (rule predict_Inr)
    then show "n_current_products r
            = int (length (filter (\<lambda>k. prev_products c k = Some 1) (product_cols art)))"
      by (simp add: count_owned_flags)
    show "col \<notin> set (filter (\<lambda>k. prev_products c k = Some 1) (product_cols art))"
      using not_one by simp
  }
qed

lemma demo_score_cta: "score_one (models demo_artifact) demo_frame ''cta'' = Inr (1 / 4)"
  by (simp add: demo_artifact_def score_one_def const_classifier_def first_item_def
      positive_class_def)

theorem flag_other_than_0_or_1_witness:
  "''cta'' \<in> set (product_cols demo_artifact)
   \<and> prev_products demo_client ''cta'' = Some 2
   \<and> (\<exists>fs. compute_features demo_artifact demo_now demo_client = Inr fs
          \<and> fs ''prev_cta'' = Some 1 \<and> fs ''n_products'' = Some 2)
   \<and> predict demo_artifact demo_now demo_client = Inr demo_prediction
   \<and> preprocess demo_artifact demo_now demo_client = Inr demo_frame
   \<and> score_one (models demo_artifact) demo_frame ''cta'' = Inr (1 / 4)
   \<and> int (length (product_cols demo_artifact)) \<le> top_k demo_client
   \<and> ''cta'' \<in> product_col ` set (recommendations demo_prediction)
   \<and> n_current_products demo_prediction = 1"
proof -
  have col: "''cta'' \<in> set (product_cols demo_artifact)" by (simp add: demo_fields)
  have flag: "prev_products demo_client ''cta'' = Some 2" by (simp add: demo_fields)
  obtain fs where fs: "compute_features demo_artifact demo_now demo_client = Inr fs"
    using compute_features_returns [OF demo_encoders_complete demo_in_range(1)] by blast
  have ne: "(2::int) \<noteq> 0" "(2::int) \<noteq> 1" by simp_all
  note inst = flag_other_than_0_or_1 [OF col flag ne, of demo_now]
  from inst fs have "fs (''prev_'' @ ''cta'') = Some 1 \<and> fs ''n_products'' = Some 2"
    by (simp add: demo_fields dict_get_def)
  with fs have feat: "\<exists>fs. compute_features demo_artifact demo_now demo_client = Inr fs
          \<and> fs ''prev_cta'' = Some 1 \<and> fs ''n_products'' = Some 2"
    by auto
  from inst have "predict demo_artifact demo_now demo_client = Inr demo_prediction
      \<and> preprocess demo_artifact demo_now demo_client = Inr demo_frame
      \<and> score_one (models demo_artifact) demo_frame ''cta'' = Inr (1 / 4) \<and> (0::real) < 1 / 4
      \<and> int (length (product_cols demo_artifact)) \<le> top_k demo_client
      \<longrightarrow> ''cta'' \<in> product_col ` set (recommendations demo_prediction)"
    by blast
  with demo_predict demo_preprocess demo_score_cta
  have "''cta'' \<in> product_col ` set (recommendations demo_prediction)"
    by (simp add: demo_fields)
  with col flag feat demo_predict demo_preprocess demo_score_cta show ?thesis
    by (simp add: demo_fields demo_prediction_def)
qed


subsection \<open>Dependence on the current date\<close>

lemma temporal_block_same_month:
  "year d1 = year d2 \<Longrightarrow> month d1 = month d2 \<Longrightarrow> temporal_block d1 f = temporal_block d2 f"
  by (simp add: temporal_block_def)

lemma compute_features_same_month:
  assumes "observation_date now1 c = Inr d1" and "observation_date now2 c = Inr d2"
    and "year d1 = year d2" and "month d1 = month d2"
  shows "compute_features art now1 c = compute_features art now2 c"
  unfolding compute_features_def assms(1,2)
  by (simp add: temporal_block_same_month [OF assms(3,4)] cong: sum.case_cong)

lemma observation_date_parsed:
  "fecha_dato c = Some s \<Longrightarrow> strptime_ymd s = Inr d \<Longrightarrow> observation_date now c = Inr d"
  by (auto simp: observation_date_def strptime_ymd_def parse_Y_def)

lemma observation_date_cases:
  "observation_date now c = Inr now
   \<or> (\<exists>s d. fecha_dato c = Some s \<and> strptime_ymd s = Inr d \<and> observation_date now c = Inr d)"
proof (cases "fecha_dato c")
  case None
  then show ?thesis by (simp add: observation_date_def)
next
  case (Some s)
  show ?thesis
  proof (cases "strptime_ymd s")
    case (Inl e)
    then obtain v where "e = ValueError v" using strptime_ymd_error by blast
    with Inl Some show ?thesis by (simp add: observation_date_def)
  next
    case (Inr d)
    with Some observation_date_parsed [OF Some Inr] show ?thesis by simp
  qed
qed

lemma predict_same_features:
  assumes "compute_features art now1 c = compute_features art now2 c"
  shows "predict art now1 c = predict art now2 c"
  by (simp add: predict_def preprocess_def assms)

text \<open>
  Claim C9, as amended. Two runs of \<open>predict\<close> on identical client records against the
  same artifact give identical outputs whenever the record's observation date is present
  and well-formed, or the two runs take place in the same calendar month. The output is a
  function of the client record, the artifact and the current date.
\<close>

theorem predict_deterministic:
  assumes "(\<exists>s d. fecha_dato c = Some s \<and> strptime_ymd s = Inr d)
           \<or> (year now1 = year now2 \<and> month now1 = month now2)"
  shows "predict art now1 c = predict art now2 c"
proof (rule predict_same_features)
  show "compute_features art now1 c = compute_features art now2 c"
  proof (cases "\<exists>s d. fecha_dato c = Some s \<and> strptime_ymd s = Inr d")
    case True
    then obtain s d where s: "fecha_dato c = Some s" and d: "strptime_ymd s = Inr d" by blast
    show ?thesis
      by (rule compute_features_same_month
          [OF observation_date_parsed [OF s d] observation_date_parsed [OF s d]]) simp_all
  next
    case False
    with assms have same: "year now1 = year now2" "month now1 = month now2" by auto
    from False observation_date_cases [of now1 c]
    have o1: "observation_date now1 c = Inr now1" by blast
    from False observation_date_cases [of now2 c]
    have o2: "observation_date now2 c = Inr now2" by blast
    show ?thesis by (rule compute_features_same_month [OF o1 o2 same])
  qed
qed

theorem predict_deterministic_witness:
  "fecha_dato demo_client = Some ''2016-05-28''
   \<and> strptime_ymd ''2016-05-28'' = Inr (Datetime 2016 5 28)
   \<and> predict demo_artifact later_now demo_client = Inr demo_prediction
   \<and> predict demo_artifact demo_now demo_client = Inr demo_prediction"
proof -
  have d: "fecha_dato demo_client = Some ''2016-05-28''" by (simp add: demo_client_def)
  have "(\<exists>s d. fecha_dato demo_client = Some s \<and> strptime_ymd s = Inr d)
        \<or> (year later_now = year demo_now \<and> month later_now = month demo_now)"
    using d demo_strptime by simp
  from predict_deterministic [OF this, of demo_artifact] d demo_strptime demo_predict
  show ?thesis by simp
qed

lemma undated_preprocess:
  "preprocess demo_artifact (Datetime 2026 m d) undated_client =
     Inr [(''age'', 35), (''log_renta'', ln 234341), (''month'', real_of_int m), (''spare'', 0)]"
  by (simp add: preprocess_def assemble_def compute_features_def demo_artifact_def
      undated_client_def demo_client_def numeric_block_def py_float_small DEFAULT_AGE_def
      DEFAULT_ANTIGUEDAD_def low_card_fields_def
      demo_encode_with encoder_names_def demo_safe_label_encode clean_top20_def
      observation_date_def temporal_block_def renta_value_def DEFAULT_RENTA_BY_SEGMENT_def
      dict_get_def DATASET_START_def)

lemma undated_fields:
  "top_k undated_client = 4"
  "prev_products undated_client = [''aho'' \<mapsto> 1, ''cta'' \<mapsto> 2]"
  by (simp_all add: undated_client_def demo_client_def)

lemma undated_ranking_input:
  "ranking_input demo_artifact
     [(''age'', 35), (''log_renta'', ln 234341), (''month'', real_of_int m), (''spare'', 0)]
     undated_client =
   Inr [(''aho'', 0), (''cta'', 1 / 4), (''tjc'', real_of_int m / 100), (''fon'', 1 / 4194304)]"
  by (simp add: ranking_input_def demo_artifact_def score_one_def const_classifier_def
      month_classifier_def first_item_def positive_class_def undated_fields dict_get_def)

lemma undated_round6: "py_round6 (11 / 100) = 11 / 100" "py_round6 (3 / 25) = 3 / 25"
  by (simp_all add: py_round6_def round_half_even_def)

lemma undated_predict_november:
  "predict demo_artifact demo_now undated_client =
     Inr \<lparr>recommendations =
            [\<lparr>product_col = ''cta'', product_name = ''cta'', probability = 1 / 4\<rparr>,
             \<lparr>product_col = ''tjc'', product_name = ''tjc'', probability = 11 / 100\<rparr>,
             \<lparr>product_col = ''fon'', product_name = ''fon'', probability = 0\<rparr>],
          n_current_products = 1\<rparr>"
  using undated_ranking_input [of 11]
  by (simp add: predict_def demo_now_def undated_preprocess sorted_desc_def
      slice_to_def demo_round6 undated_round6 count_owned_def demo_fields undated_fields
      dict_get_def)

lemma undated_predict_december:
  "predict demo_artifact later_now undated_client =
     Inr \<lparr>recommendations =
            [\<lparr>product_col = ''cta'', product_name = ''cta'', probability = 1 / 4\<rparr>,
             \<lparr>product_col = ''tjc'', product_name = ''tjc'', probability = 3 / 25\<rparr>,
             \<lparr>product_col = ''fon'', product_name = ''fon'', probability = 0\<rparr>],
          n_current_products = 1\<rparr>"
  using undated_ranking_input [of 12]
  by (simp add: predict_def later_now_def undated_preprocess sorted_desc_def
      slice_to_def demo_round6 undated_round6 count_owned_def demo_fields undated_fields
      dict_get_def)

text \<open>
  The claim as first stated fails: the same record without an observation date, scored
  against the same artifact in November and in December 2026, gets different outputs.
\<close>

theorem predict_clock_counterexample:
  "fecha_dato undated_client = None
   \<and> predict demo_artifact demo_now undated_client
       \<noteq> predict demo_artifact later_now undated_client"
proof -
  have "fecha_dato undated_client = None" by (simp add: undated_client_def)
  moreover have "predict demo_artifact demo_now undated_client
       \<noteq> predict demo_artifact later_now undated_client"
    by (simp add: undated_predict_november undated_predict_december)
  ultimately show ?thesis by simp
qed


section \<open>Properties of the artifact store\<close>

lemma check_missing_keys_set:
  "set (check_missing_keys b errs) =
     set errs \<union> (if EXPECTED_KEYS - bundle_keys b \<noteq> {}
                   then {MissingKeys (EXPECTED_KEYS - bundle_keys b)} else {})"
  by (simp add: check_missing_keys_def Let_def)

lemma check_models_set:
  "set (check_models b errs) =
     set errs \<union> (if b_models b = Some [] then {ModelsEmpty} else {})"
  by (auto simp: check_models_def split: option.splits)

lemma check_product_cols_set:
  "set (check_product_cols b errs) =
     set errs \<union> (case (b_models b, b_product_cols b) of
                    (Some ms, Some pcs) \<Rightarrow>
                      if set (map fst ms) \<noteq> set pcs
                      then {KeysMismatch (set (map fst ms) - set pcs) (set pcs - set (map fst ms))}
                      else {}
                  | _ \<Rightarrow> {})"
  by (simp add: check_product_cols_def Let_def split: option.splits)

lemma check_label_encoders_set:
  "set (check_label_encoders b errs) =
     set errs \<union> (if b_label_encoders b = Some [] then {EncodersEmpty} else {})"
  by (auto simp: check_label_encoders_def split: option.splits)

lemma collect_errors_set:
  "set (collect_errors b) =
     (if EXPECTED_KEYS - bundle_keys b \<noteq> {}
      then {MissingKeys (EXPECTED_KEYS - bundle_keys b)} else {})
     \<union> (if b_models b = Some [] then {ModelsEmpty} else {})
     \<union> (case (b_models b, b_product_cols b) of
          (Some ms, Some pcs) \<Rightarrow>
            if set (map fst ms) \<noteq> set pcs
            then {KeysMismatch (set (map fst ms) - set pcs) (set pcs - set (map fst ms))}
            else {}
        | _ \<Rightarrow> {})
     \<union> (if b_label_encoders b = Some [] then {EncodersEmpty} else {})"
  unfolding collect_errors_def check_label_encoders_set check_product_cols_set
    check_models_set check_missing_keys_set
  by simp

lemma load_model_result:
  "load_model store b =
     (if collect_errors b \<noteq> []
      then (Inl (ValueError (ValidationFailed (collect_errors b))),
            store\<lparr>store_artifact := Some b\<rparr>)
      else (Inr (), store\<lparr>store_artifact := Some b, store_loaded := True\<rparr>))"
  by (simp add: load_model_def validate_def Let_def)

text \<open>
  Claim C5. If validation of the bundle finds any violation (missing expected keys, empty
  classifier mapping, classifier-key set differing from the product-column set, or empty
  encoder mapping), the load fails with the validation error, whose message lists every
  violation found and not only the first, and afterwards \<open>is_loaded\<close> still returns
  false; all four checks run before the error is raised.
\<close>

theorem load_model_rejects:
  assumes "\<not> is_loaded store"
    and "EXPECTED_KEYS - bundle_keys b \<noteq> {}
         \<or> b_models b = Some []
         \<or> (\<exists>ms pcs. b_models b = Some ms \<and> b_product_cols b = Some pcs
                \<and> set (map fst ms) \<noteq> set pcs)
         \<or> b_label_encoders b = Some []"
  shows "\<exists>errs store'.
           load_model store b = (Inl (ValueError (ValidationFailed errs)), store')
         \<and> \<not> is_loaded store'
         \<and> errs \<noteq> []
         \<and> (EXPECTED_KEYS - bundle_keys b \<noteq> {} \<longrightarrow>
               MissingKeys (EXPECTED_KEYS - bundle_keys b) \<in> set errs)
         \<and> (b_models b = Some [] \<longrightarrow> ModelsEmpty \<in> set errs)
         \<and> (\<forall>ms pcs. b_models b = Some ms \<and> b_product_cols b = Some pcs
                \<and> set (map fst ms) \<noteq> set pcs \<longrightarrow>
               KeysMismatch (set (map fst ms) - set pcs) (set pcs - set (map fst ms)) \<in> set errs)
         \<and> (b_label_encoders b = Some [] \<longrightarrow> EncodersEmpty \<in> set errs)"
proof -
  have m1: "EXPECTED_KEYS - bundle_keys b \<noteq> {} \<longrightarrow>
               MissingKeys (EXPECTED_KEYS - bundle_keys b) \<in> set (collect_errors b)"
    unfolding collect_errors_set by simp
  have m2: "b_models b = Some [] \<longrightarrow> ModelsEmpty \<in> set (collect_errors b)"
    unfolding collect_errors_set by simp
  have m3: "\<forall>ms pcs. b_models b = Some ms \<and> b_product_cols b = Some pcs
                \<and> set (map fst ms) \<noteq> set pcs \<longrightarrow>
               KeysMismatch (set (map fst ms) - set pcs) (set pcs - set (map fst ms))
                 \<in> set (collect_errors b)"
    unfolding collect_errors_set by auto
  have m4: "b_label_encoders b = Some [] \<longrightarrow> EncodersEmpty \<in> set (collect_errors b)"
    unfolding collect_errors_set by simp
  from assms(2) m1 m2 m3 m4 have "\<exists>e. e \<in> set (collect_errors b)" by blast
  then have ne: "collect_errors b \<noteq> []" by auto
  have res: "load_model store b =
      (Inl (ValueError (ValidationFailed (collect_errors b))),
       store\<lparr>store_artifact := Some b\<rparr>)"
    by (simp add: load_model_result ne)
  have still: "\<not> is_loaded (store\<lparr>store_artifact := Some b\<rparr>)"
    using assms(1) by (simp add: is_loaded_def)
  from res still ne m1 m2 m3 m4 show ?thesis by blast
qed

lemma bad_bundle_missing: "EXPECTED_KEYS - bundle_keys bad_bundle = {''feature_cols''}"
  by (auto simp: EXPECTED_KEYS_def bundle_keys_def present_def bad_bundle_def)

lemma bad_bundle_errors:
  "collect_errors bad_bundle =
     [MissingKeys {''feature_cols''}, ModelsEmpty, KeysMismatch {} {''aho''}, EncodersEmpty]"
  unfolding collect_errors_def check_missing_keys_def bad_bundle_missing
  by (simp add: check_models_def check_product_cols_def check_label_encoders_def
      bad_bundle_def)

theorem load_model_rejects_witness:
  "\<not> is_loaded new_store
   \<and> EXPECTED_KEYS - bundle_keys bad_bundle \<noteq> {}
   \<and> load_model new_store bad_bundle =
       (Inl (ValueError (ValidationFailed
          [MissingKeys {''feature_cols''}, ModelsEmpty, KeysMismatch {} {''aho''},
           EncodersEmpty])),
        \<lparr>store_artifact = Some bad_bundle, store_loaded = False\<rparr>)
   \<and> \<not> is_loaded (snd (load_model new_store bad_bundle))"
proof -
  have fresh: "\<not> is_loaded new_store" by (simp add: is_loaded_def new_store_def)
  have bad: "EXPECTED_KEYS - bundle_keys bad_bundle \<noteq> {}
         \<or> b_models bad_bundle = Some []
         \<or> (\<exists>ms pcs. b_models bad_bundle = Some ms \<and> b_product_cols bad_bundle = Some pcs
                \<and> set (map fst ms) \<noteq> set pcs)
         \<or> b_label_encoders bad_bundle = Some []"
    by (simp add: bad_bundle_missing)
  from load_model_rejects [OF fresh bad] fresh show ?thesis
    by (simp add: load_model_result bad_bundle_errors bad_bundle_missing new_store_def
        is_loaded_def)
qed


end
